theory Spec2Isabelle
  imports Complex_Main "HOL-Library.Multiset" "HOL-Library.Product_Lexorder"
begin

section \<open>Strings and runtime values\<close>

text \<open>
  A JavaScript string is a sequence of UTF-16 code units; a code unit is a natural number
  here. \<open>str\<close> gives the code units of an ASCII literal of the source.
\<close>

type_synonym jsstring = "nat list"

definition str :: "string \<Rightarrow> jsstring" where
  "str s = map of_char s"

text \<open>
  The values \<open>JSON.parse\<close> can produce, and \<open>undefined\<close>, which reading a missing
  property yields. An object keeps its members in source order; the last member with a
  given name is the one a property read sees. Numbers are exact rationals: the rounding
  of a number token to an IEEE double is not modelled.
\<close>

datatype jsval =
    JUndefined
  | JNull
  | JBool bool
  | JNum rat
  | JString jsstring
  | JArray "jsval list"
  | JObject "(jsstring \<times> jsval) list"

datatype js_error =
    Error jsstring
  | SyntaxError
  | TypeError
  | RequestError

text \<open>\<open>v || d\<close> and the truthiness test of \<open>if (v)\<close>.\<close>

fun truthy :: "jsval \<Rightarrow> bool" where
  "truthy JUndefined = False"
| "truthy JNull = False"
| "truthy (JBool b) = b"
| "truthy (JNum n) = (n \<noteq> 0)"
| "truthy (JString s) = (s \<noteq> [])"
| "truthy (JArray xs) = True"
| "truthy (JObject ms) = True"

definition js_or :: "jsval \<Rightarrow> jsval \<Rightarrow> jsval" where
  "js_or v d = (if truthy v then v else d)"

text \<open>
  Reading a property \<open>v.name\<close>, for the names the parsers read (none of them is a
  property of a prototype): \<open>undefined\<close> and \<open>null\<close> raise a TypeError, an object
  yields its member or \<open>undefined\<close>, every other value yields \<open>undefined\<close>.
\<close>

fun get_prop :: "jsval \<Rightarrow> jsstring \<Rightarrow> js_error + jsval" where
  "get_prop JUndefined name = Inl TypeError"
| "get_prop JNull name = Inl TypeError"
| "get_prop (JObject ms) name =
     (case map_of (rev ms) name of None \<Rightarrow> Inr JUndefined | Some v \<Rightarrow> Inr v)"
| "get_prop v name = Inr JUndefined"

text \<open>\<open>acc.concat(v)\<close>: an array argument is spread, any other value is appended.\<close>

fun js_concat :: "jsval list \<Rightarrow> jsval \<Rightarrow> jsval list" where
  "js_concat acc (JArray xs) = acc @ xs"
| "js_concat acc v = acc @ [v]"

section \<open>A model of JSON.parse\<close>

text \<open>
  The parsers of \<^verbatim>\<open>ai-analyzer.ts\<close> call the platform's \<open>JSON.parse\<close>. They take it
  as a parameter below (\<open>None\<close> is the SyntaxError it throws); \<open>JSON_parse\<close> is a
  recursive-descent reading of the JSON grammar (ECMA-404), used to evaluate concrete
  replies. The tests \<open>length r < length s\<close> in the mutually recursive functions say that
  the value just parsed consumed input; they always hold and carry the termination proof.
\<close>

definition is_json_ws :: "nat \<Rightarrow> bool" where
  "is_json_ws c \<longleftrightarrow> c = 32 \<or> c = 9 \<or> c = 10 \<or> c = 13"

definition skip_ws :: "jsstring \<Rightarrow> jsstring" where
  "skip_ws s = dropWhile is_json_ws s"

definition is_digit :: "nat \<Rightarrow> bool" where
  "is_digit c \<longleftrightarrow> 48 \<le> c \<and> c \<le> 57"

definition hex_value :: "nat \<Rightarrow> nat option" where
  "hex_value c =
     (if 48 \<le> c \<and> c \<le> 57 then Some (c - 48)
      else if 97 \<le> c \<and> c \<le> 102 then Some (c - 87)
      else if 65 \<le> c \<and> c \<le> 70 then Some (c - 55)
      else None)"

definition escape_char :: "nat \<Rightarrow> nat option" where
  "escape_char e =
     (if e = 34 then Some 34
      else if e = 92 then Some 92
      else if e = 47 then Some 47
      else if e = 98 then Some 8
      else if e = 102 then Some 12
      else if e = 110 then Some 10
      else if e = 114 then Some 13
      else if e = 116 then Some 9
      else None)"

text \<open>The characters of a string token after its opening quote, up to the closing one.\<close>

fun parse_chars :: "jsstring \<Rightarrow> jsstring \<Rightarrow> (jsstring \<times> jsstring) option" where
  "parse_chars acc [] = None"
| "parse_chars acc (c # cs) =
     (if c = 34 then Some (rev acc, cs)
      else if c = 92 then
        (case cs of
           [] \<Rightarrow> None
         | e # es \<Rightarrow>
             if e = 117 then
               (case es of
                  h1 # h2 # h3 # h4 # r \<Rightarrow>
                    (case (hex_value h1, hex_value h2, hex_value h3, hex_value h4) of
                       (Some a, Some b, Some c, Some d) \<Rightarrow>
                         parse_chars ((((a * 16 + b) * 16 + c) * 16 + d) # acc) r
                     | _ \<Rightarrow> None)
                | _ \<Rightarrow> None)
             else
               (case escape_char e of
                  Some x \<Rightarrow> parse_chars (x # acc) es
                | None \<Rightarrow> None))
      else if c < 32 then None
      else parse_chars (c # acc) cs)"

definition digits_value :: "jsstring \<Rightarrow> nat" where
  "digits_value ds = foldl (\<lambda>n d. 10 * n + (d - 48)) 0 ds"

definition scale10 :: "int \<Rightarrow> rat" where
  "scale10 e = (if 0 \<le> e then 10 ^ nat e else 1 / 10 ^ nat (- e))"

definition parse_exponent :: "jsstring \<Rightarrow> (int \<times> jsstring) option" where
  "parse_exponent s =
     (case s of
        [] \<Rightarrow> Some (0, s)
      | c # r \<Rightarrow>
          if c = 101 \<or> c = 69 then
            (let (neg, r1) =
                   (case r of
                      [] \<Rightarrow> (False, r)
                    | x # r' \<Rightarrow>
                        if x = 45 then (True, r') else if x = 43 then (False, r') else (False, r));
                 es = takeWhile is_digit r1
             in if es = [] then None
                else Some ((if neg then - int (digits_value es) else int (digits_value es)),
                           dropWhile is_digit r1))
          else Some (0, s))"

definition parse_fraction :: "jsstring \<Rightarrow> (jsstring \<times> jsstring) option" where
  "parse_fraction s =
     (case s of
        [] \<Rightarrow> Some ([], s)
      | c # r \<Rightarrow>
          if c = 46 then
            (let fs = takeWhile is_digit r
             in if fs = [] then None else Some (fs, dropWhile is_digit r))
          else Some ([], s))"

definition parse_number :: "jsstring \<Rightarrow> (jsval \<times> jsstring) option" where
  "parse_number s =
     (let (neg, s1) =
            (case s of [] \<Rightarrow> (False, s) | c # r \<Rightarrow> if c = 45 then (True, r) else (False, s));
          ds = takeWhile is_digit s1
      in if ds = [] \<or> (1 < length ds \<and> hd ds = 48) then None
         else
           (case parse_fraction (dropWhile is_digit s1) of
              None \<Rightarrow> None
            | Some (fs, s2) \<Rightarrow>
                (case parse_exponent s2 of
                   None \<Rightarrow> None
                 | Some (e, s3) \<Rightarrow>
                     (let m = of_nat (digits_value (ds @ fs)) * scale10 (e - int (length fs))
                      in Some (JNum (if neg then - m else m), s3)))))"

definition parse_literal :: "jsstring \<Rightarrow> (jsval \<times> jsstring) option" where
  "parse_literal s =
     (if take 4 s = str ''true'' then Some (JBool True, drop 4 s)
      else if take 5 s = str ''false'' then Some (JBool False, drop 5 s)
      else if take 4 s = str ''null'' then Some (JNull, drop 4 s)
      else parse_number s)"

function parse_value :: "jsstring \<Rightarrow> (jsval \<times> jsstring) option"
  and parse_elements :: "jsval list \<Rightarrow> jsstring \<Rightarrow> (jsval \<times> jsstring) option"
  and parse_members :: "(jsstring \<times> jsval) list \<Rightarrow> jsstring \<Rightarrow> (jsval \<times> jsstring) option"
where
  "parse_value s =
     (case skip_ws s of
        [] \<Rightarrow> None
      | c # cs \<Rightarrow>
          if c = 123 then
            (case skip_ws cs of
               [] \<Rightarrow> None
             | d # r \<Rightarrow> if d = 125 then Some (JObject [], r) else parse_members [] cs)
          else if c = 91 then
            (case skip_ws cs of
               [] \<Rightarrow> None
             | d # r \<Rightarrow> if d = 93 then Some (JArray [], r) else parse_elements [] cs)
          else if c = 34 then
            (case parse_chars [] cs of
               None \<Rightarrow> None
             | Some (t, r) \<Rightarrow> Some (JString t, r))
          else parse_literal (c # cs))"
| "parse_elements acc s =
     (case parse_value s of
        None \<Rightarrow> None
      | Some (v, r) \<Rightarrow>
          if length r < length s then
            (case skip_ws r of
               [] \<Rightarrow> None
             | d # r' \<Rightarrow>
                 if d = 44 then parse_elements (acc @ [v]) r'
                 else if d = 93 then Some (JArray (acc @ [v]), r')
                 else None)
          else None)"
| "parse_members acc s =
     (case skip_ws s of
        [] \<Rightarrow> None
      | q # cs \<Rightarrow>
          if q = 34 then
            (case parse_chars [] cs of
               None \<Rightarrow> None
             | Some (k, r1) \<Rightarrow>
                 (case skip_ws r1 of
                    [] \<Rightarrow> None
                  | colon # r2 \<Rightarrow>
                      if colon = 58 \<and> length r2 < length s then
                        (case parse_value r2 of
                           None \<Rightarrow> None
                         | Some (v, r3) \<Rightarrow>
                             if length r3 < length r2 then
                               (case skip_ws r3 of
                                  [] \<Rightarrow> None
                                | d # r4 \<Rightarrow>
                                    if d = 44 then parse_members (acc @ [(k, v)]) r4
                                    else if d = 125 then Some (JObject (acc @ [(k, v)]), r4)
                                    else None)
                             else None)
                      else None))
          else None)"
  by pat_completeness auto

termination
proof (relation "measure (\<lambda>x. case x of
          Inl s \<Rightarrow> 2 * length s
        | Inr (Inl (acc, s)) \<Rightarrow> 2 * length s + 1
        | Inr (Inr (acc, s)) \<Rightarrow> 2 * length s + 1)", goal_cases)
  case 1
  show ?case by simp
next
  case (2 s c cs d r)
  have "length (skip_ws s) \<le> length s"
    by (simp add: skip_ws_def length_dropWhile_le)
  with 2 show ?case by simp
next
  case (3 s c cs d r)
  have "length (skip_ws s) \<le> length s"
    by (simp add: skip_ws_def length_dropWhile_le)
  with 3 show ?case by simp
next
  case 4
  show ?case by simp
next
  case (5 acc s p v r d r')
  have "length (skip_ws r) \<le> length r"
    by (simp add: skip_ws_def length_dropWhile_le)
  with 5 show ?case by simp
next
  case 6
  then show ?case by simp
next
  case (7 acc s q cs p k r1 colon r2 p' v r3 d r4)
  have "length (skip_ws r3) \<le> length r3"
    by (simp add: skip_ws_def length_dropWhile_le)
  with 7 show ?case by simp
qed

definition JSON_parse :: "jsstring \<Rightarrow> jsval option" where
  "JSON_parse s =
     (case parse_value s of
        None \<Rightarrow> None
      | Some (v, r) \<Rightarrow> if skip_ws r = [] then Some v else None)"

section \<open>The data model\<close>

text \<open>
  \<^verbatim>\<open>CodeIssue\<close> of \<^verbatim>\<open>types.ts\<close>. The record is polymorphic in the types of the fields
  that \<open>parseAnalysisResponse\<close> copies from the reply without a check (the source maps
  over values of type \<open>any\<close>): in a \<open>ReplyIssue\<close> they hold whatever JSON value the reply
  carried, in a \<open>Finding\<close> they have the types the interface declares. Line numbers of a
  \<open>Finding\<close> are integers. The field \<open>file\<close> is written \<open>file'\<close>.
\<close>

datatype issue_type = IssueError | IssueWarning | IssueInfo

datatype severity = Critical | High | Medium | Low

record ('sev, 'txt, 'num, 'fix, 'flag) CodeIssue =
  type :: issue_type
  severity :: 'sev
  category :: 'txt
  message :: 'txt
  file' :: jsstring
  line :: 'num
  column :: "'num option"
  code :: "jsstring option"
  suggestedFix :: 'fix
  autoFixable :: 'flag

type_synonym ReplyIssue = "(jsval, jsval, jsval, jsval, jsval) CodeIssue"

type_synonym Finding = "(severity, jsstring, int, jsstring option, bool) CodeIssue"

text \<open>\<^verbatim>\<open>AIAnalysisResult\<close>; \<open>hasMore\<close> is \<open>JUndefined\<close> when the object has no such member.\<close>

record AIAnalysisResult =
  issues :: "ReplyIssue list"
  summary :: jsval
  suggestions :: jsval
  architecturalInsights :: jsval
  hasMore :: jsval

text \<open>
  \<^verbatim>\<open>AIFixResult\<close>, polymorphic in the same way: in a \<open>ReplyFix\<close>, which
  \<open>parseFixResponse\<close> builds and the fix engine reads, the fields hold whatever JSON
  value the reply carried.
\<close>

record ('code, 'expl, 'conf) AIFixResult =
  originalCode :: jsstring
  fixedCode :: 'code
  explanation :: 'expl
  confidence :: 'conf

type_synonym ReplyFix = "(jsval, jsval, jsval) AIFixResult"

section \<open>The response parsers (ai-analyzer.ts)\<close>

text \<open>
  \<^verbatim>\<open>response.match(/\{[\s\S]*\}/)\<close>: the text from the first \<open>{\<close> to the last \<open>}\<close>
  after it, if there is one.
\<close>

definition match_json :: "jsstring \<Rightarrow> jsstring option" where
  "match_json response =
     (let from_open = dropWhile (\<lambda>c. c \<noteq> 123) response;
          span = rev (dropWhile (\<lambda>c. c \<noteq> 125) (rev from_open))
      in if span = [] then None else Some span)"

text \<open>\<^verbatim>\<open>(jsonText.match(/c/g) || []).length\<close> for a single character \<open>c\<close>.\<close>

definition count_char :: "nat \<Rightarrow> jsstring \<Rightarrow> nat" where
  "count_char c s = length (filter (\<lambda>x. x = c) s)"

text \<open>The class \<open>\s\<close> of a JavaScript regular expression.\<close>

definition is_regex_space :: "nat \<Rightarrow> bool" where
  "is_regex_space c \<longleftrightarrow>
     c = 9 \<or> c = 10 \<or> c = 11 \<or> c = 12 \<or> c = 13 \<or> c = 32 \<or> c = 160 \<or> c = 5760
     \<or> (8192 \<le> c \<and> c \<le> 8202) \<or> c = 8232 \<or> c = 8233 \<or> c = 8239 \<or> c = 8287
     \<or> c = 12288 \<or> c = 65279"

text \<open>\<^verbatim>\<open>jsonText.replace(/,\s*$/, '')\<close>: a comma followed only by white space up to the end is cut off with that white space.\<close>

definition strip_trailing_comma :: "jsstring \<Rightarrow> jsstring" where
  "strip_trailing_comma s =
     (case dropWhile is_regex_space (rev s) of
        [] \<Rightarrow> s
      | c # r \<Rightarrow> if c = 44 then rev r else s)"

text \<open>The body of the inner \<open>catch (parseError)\<close> of \<open>parseAnalysisResponse\<close>.\<close>

definition repair_json :: "jsstring \<Rightarrow> jsstring" where
  "repair_json jsonText =
     (let openBraces = count_char 123 jsonText;
          closeBraces = count_char 125 jsonText;
          openBrackets = count_char 91 jsonText;
          closeBrackets = count_char 93 jsonText;
          jsonText1 =
            (if openBrackets > closeBrackets
             then strip_trailing_comma jsonText @ replicate (openBrackets - closeBrackets) 93
             else jsonText);
          jsonText2 =
            (if openBraces > closeBraces
             then jsonText1 @ replicate (openBraces - closeBraces) 125
             else jsonText1)
      in jsonText2)"

text \<open>The callback of \<open>.map\<close>: one entry of \<open>parsed.issues\<close> becomes a CodeIssue.\<close>

definition convert_issue :: "jsstring \<Rightarrow> jsval \<Rightarrow> js_error + ReplyIssue" where
  "convert_issue filePath issue =
     (case get_prop issue (str ''severity'') of
        Inl e \<Rightarrow> Inl e
      | Inr sev \<Rightarrow>
     (case get_prop issue (str ''category'') of
        Inl e \<Rightarrow> Inl e
      | Inr cat \<Rightarrow>
     (case get_prop issue (str ''message'') of
        Inl e \<Rightarrow> Inl e
      | Inr msg \<Rightarrow>
     (case get_prop issue (str ''line'') of
        Inl e \<Rightarrow> Inl e
      | Inr lnum \<Rightarrow>
     (case get_prop issue (str ''suggestedFix'') of
        Inl e \<Rightarrow> Inl e
      | Inr sfix \<Rightarrow>
     (case get_prop issue (str ''autoFixable'') of
        Inl e \<Rightarrow> Inl e
      | Inr auto_fix \<Rightarrow>
          Inr \<lparr> type = (if sev = JString (str ''critical'') \<or> sev = JString (str ''high'')
                       then IssueError else IssueWarning),
                severity = sev,
                category = cat,
                message = msg,
                file' = filePath,
                line = js_or lnum (JNum 1),
                column = None,
                code = None,
                suggestedFix = sfix,
                autoFixable = js_or auto_fix (JBool False) \<rparr>))))))"

fun map_issues :: "jsstring \<Rightarrow> jsval list \<Rightarrow> js_error + ReplyIssue list" where
  "map_issues filePath [] = Inr []"
| "map_issues filePath (x # xs) =
     (case convert_issue filePath x of
        Inl e \<Rightarrow> Inl e
      | Inr i \<Rightarrow>
          (case map_issues filePath xs of
             Inl e \<Rightarrow> Inl e
           | Inr rest \<Rightarrow> Inr (i # rest)))"

text \<open>
  \<^verbatim>\<open>(parsed.issues || []).map(...)\<close>: a truthy value that is not an array has no
  method \<open>map\<close>, and the call raises a TypeError.
\<close>

definition issues_of_parsed :: "jsstring \<Rightarrow> jsval \<Rightarrow> js_error + ReplyIssue list" where
  "issues_of_parsed filePath parsed =
     (case get_prop parsed (str ''issues'') of
        Inl e \<Rightarrow> Inl e
      | Inr v \<Rightarrow>
          (case js_or v (JArray []) of
             JArray xs \<Rightarrow> map_issues filePath xs
           | _ \<Rightarrow> Inl TypeError))"

text \<open>Lines 315 to 333: what \<open>parseAnalysisResponse\<close> does with the parsed value.\<close>

definition analysis_of_parsed :: "jsstring \<Rightarrow> jsval \<Rightarrow> js_error + AIAnalysisResult" where
  "analysis_of_parsed filePath parsed =
     (case issues_of_parsed filePath parsed of
        Inl e \<Rightarrow> Inl e
      | Inr iss \<Rightarrow>
     (case get_prop parsed (str ''summary'') of
        Inl e \<Rightarrow> Inl e
      | Inr sm \<Rightarrow>
     (case get_prop parsed (str ''suggestions'') of
        Inl e \<Rightarrow> Inl e
      | Inr sg \<Rightarrow>
     (case get_prop parsed (str ''architecturalInsights'') of
        Inl e \<Rightarrow> Inl e
      | Inr ai \<Rightarrow>
     (case get_prop parsed (str ''hasMore'') of
        Inl e \<Rightarrow> Inl e
      | Inr hm \<Rightarrow>
          Inr \<lparr> issues = iss,
                summary = js_or sm (JString (str ''AI analysis completed'')),
                suggestions = js_or sg (JArray []),
                architecturalInsights = js_or ai (JArray []),
                hasMore = js_or hm (JBool False) \<rparr>)))))"

text \<open>The \<open>try\<close> block of \<open>parseAnalysisResponse\<close>; \<open>Inl\<close> is what it throws.\<close>

definition parseAnalysisResponse_try ::
  "(jsstring \<Rightarrow> jsval option) \<Rightarrow> jsstring \<Rightarrow> jsstring \<Rightarrow> js_error + AIAnalysisResult" where
  "parseAnalysisResponse_try json_parse response filePath =
     (case match_json response of
        None \<Rightarrow> Inl (Error (str ''No JSON found in response''))
      | Some jsonMatch \<Rightarrow>
          (let jsonText =
                 (case json_parse jsonMatch of
                    Some _ \<Rightarrow> jsonMatch
                  | None \<Rightarrow> repair_json jsonMatch)
           in case json_parse jsonText of
                None \<Rightarrow> Inl SyntaxError
              | Some parsed \<Rightarrow> analysis_of_parsed filePath parsed))"

definition analysis_failed :: AIAnalysisResult where
  "analysis_failed =
     \<lparr> issues = [],
       summary = JString (str ''Failed to parse AI response''),
       suggestions = JArray [],
       architecturalInsights = JArray [],
       hasMore = JUndefined \<rparr>"

definition parseAnalysisResponse ::
  "(jsstring \<Rightarrow> jsval option) \<Rightarrow> jsstring \<Rightarrow> jsstring \<Rightarrow> AIAnalysisResult" where
  "parseAnalysisResponse json_parse response filePath =
     (case parseAnalysisResponse_try json_parse response filePath of
        Inl e \<Rightarrow> analysis_failed
      | Inr result \<Rightarrow> result)"

text \<open>Lines 354 to 359: what \<open>parseFixResponse\<close> does with the parsed value.\<close>

definition fix_of_parsed :: "jsstring \<Rightarrow> jsval \<Rightarrow> js_error + ReplyFix" where
  "fix_of_parsed originalCode' parsed =
     (case get_prop parsed (str ''fixedCode'') of
        Inl e \<Rightarrow> Inl e
      | Inr fc \<Rightarrow>
     (case get_prop parsed (str ''explanation'') of
        Inl e \<Rightarrow> Inl e
      | Inr ex \<Rightarrow>
     (case get_prop parsed (str ''confidence'') of
        Inl e \<Rightarrow> Inl e
      | Inr cf \<Rightarrow>
          Inr \<lparr> originalCode = originalCode',
                fixedCode = js_or fc (JString originalCode'),
                explanation = js_or ex (JString (str ''No explanation provided'')),
                confidence = js_or cf (JNum 0) \<rparr>)))"

definition parseFixResponse_try ::
  "(jsstring \<Rightarrow> jsval option) \<Rightarrow> jsstring \<Rightarrow> jsstring \<Rightarrow> js_error + ReplyFix" where
  "parseFixResponse_try json_parse response originalCode' =
     (case match_json response of
        None \<Rightarrow> Inl (Error (str ''No JSON found in response''))
      | Some jsonMatch \<Rightarrow>
          (case json_parse jsonMatch of
             None \<Rightarrow> Inl SyntaxError
           | Some parsed \<Rightarrow> fix_of_parsed originalCode' parsed))"

definition fix_failed :: "jsstring \<Rightarrow> ReplyFix" where
  "fix_failed originalCode' =
     \<lparr> originalCode = originalCode',
       fixedCode = JString originalCode',
       explanation = JString (str ''Failed to generate fix''),
       confidence = JNum 0 \<rparr>"

definition parseFixResponse ::
  "(jsstring \<Rightarrow> jsval option) \<Rightarrow> jsstring \<Rightarrow> jsstring \<Rightarrow> ReplyFix" where
  "parseFixResponse json_parse response originalCode' =
     (case parseFixResponse_try json_parse response originalCode' of
        Inl e \<Rightarrow> fix_failed originalCode'
      | Inr result \<Rightarrow> result)"

section \<open>The chunked analysis loop (analyzeCode)\<close>

text \<open>
  The reply of \<open>client.messages.create\<close> is a message whose \<open>content\<close> is a list of
  blocks. The arguments \<open>content\<close> and \<open>context\<close> of \<open>analyzeCode\<close> enter the prompt
  only, and within one call the prompt changes with the chunk number only, so the
  service is a function from the chunk number to its reply: \<open>None\<close> when the request is
  rejected. Every behaviour of a service, also one that keeps state between requests, is
  such a function.
\<close>

datatype content_block = TextBlock jsstring | OtherBlock

type_synonym service = "nat \<Rightarrow> content_block list option"

text \<open>
  \<^verbatim>\<open>message.content[0].type === 'text' ? message.content[0].text : ''\<close>: with no
  block at all \<open>content[0]\<close> is \<open>undefined\<close> and reading its \<open>type\<close> raises.
\<close>

fun response_text :: "content_block list \<Rightarrow> js_error + jsstring" where
  "response_text [] = Inl TypeError"
| "response_text (TextBlock t # bs) = Inr t"
| "response_text (OtherBlock # bs) = Inr []"

text \<open>
  The local variables of \<open>analyzeCode\<close> (\<open>hasMore\<close>, \<open>summary\<close>, \<open>suggestions\<close> and
  \<open>architecturalInsights\<close> carry the prefix \<open>cur_\<close>), and \<open>requests\<close>, the number of
  requests sent so far.
\<close>

record analysis_state =
  allIssues :: "ReplyIssue list"
  currentChunk :: nat
  cur_hasMore :: jsval
  cur_summary :: jsval
  cur_suggestions :: "jsval list"
  cur_insights :: "jsval list"
  requests :: nat

definition analysis_start :: analysis_state where
  "analysis_start =
     \<lparr> allIssues = [],
       currentChunk = 0,
       cur_hasMore = JBool True,
       cur_summary = JString [],
       cur_suggestions = [],
       cur_insights = [],
       requests = 0 \<rparr>"

text \<open>Lines 66 to 73: one reply is added to the accumulators.\<close>

definition accumulate :: "AIAnalysisResult \<Rightarrow> analysis_state \<Rightarrow> analysis_state" where
  "accumulate result st =
     st \<lparr> allIssues := allIssues st @ issues result,
          cur_summary := (if truthy (summary result) then summary result else cur_summary st),
          cur_suggestions :=
            (if truthy (suggestions result)
             then js_concat (cur_suggestions st) (suggestions result)
             else cur_suggestions st),
          cur_insights :=
            (if truthy (architecturalInsights result)
             then js_concat (cur_insights st) (architecturalInsights result)
             else cur_insights st),
          cur_hasMore := js_or (hasMore result) (JBool False),
          currentChunk := currentChunk st + 1 \<rparr>"

text \<open>
  The \<open>while\<close> loop. It returns the final state and, when a request or the reading of
  its reply raised, the error that leaves \<open>analyzeCode\<close>.
\<close>

function analyze_loop ::
  "(jsstring \<Rightarrow> jsval option) \<Rightarrow> service \<Rightarrow> jsstring \<Rightarrow> analysis_state
     \<Rightarrow> analysis_state \<times> js_error option" where
  "analyze_loop json_parse client filePath st =
     (if truthy (cur_hasMore st) \<and> currentChunk st < 10 then
        (case client (currentChunk st) of
           None \<Rightarrow> (st \<lparr> requests := requests st + 1 \<rparr>, Some RequestError)
         | Some msg \<Rightarrow>
             (case response_text msg of
                Inl e \<Rightarrow> (st \<lparr> requests := requests st + 1 \<rparr>, Some e)
              | Inr response \<Rightarrow>
                  analyze_loop json_parse client filePath
                    (accumulate (parseAnalysisResponse json_parse response filePath)
                       (st \<lparr> requests := requests st + 1 \<rparr>))))
      else (st, None))"
  by pat_completeness auto

termination
  by (relation "measure (\<lambda>(json_parse, client, filePath, st). 10 - currentChunk st)")
     (auto simp: accumulate_def)

declare analyze_loop.simps [simp del]

definition analyzeCode ::
  "(jsstring \<Rightarrow> jsval option) \<Rightarrow> service \<Rightarrow> jsstring \<Rightarrow> js_error + AIAnalysisResult" where
  "analyzeCode json_parse client filePath =
     (case analyze_loop json_parse client filePath analysis_start of
        (st, Some e) \<Rightarrow> Inl e
      | (st, None) \<Rightarrow>
          Inr \<lparr> issues = allIssues st,
                summary = js_or (cur_summary st) (JString (str ''AI analysis completed'')),
                suggestions = JArray (cur_suggestions st),
                architecturalInsights = JArray (cur_insights st),
                hasMore = JBool False \<rparr>)"

definition analyzeCode_requests ::
  "(jsstring \<Rightarrow> jsval option) \<Rightarrow> service \<Rightarrow> jsstring \<Rightarrow> nat" where
  "analyzeCode_requests json_parse client filePath =
     requests (fst (analyze_loop json_parse client filePath analysis_start))"

text \<open>The findings of the reply to request \<open>n\<close>, as the loop adds them to \<open>allIssues\<close>.\<close>

definition chunk_issues ::
  "(jsstring \<Rightarrow> jsval option) \<Rightarrow> service \<Rightarrow> jsstring \<Rightarrow> nat \<Rightarrow> ReplyIssue list" where
  "chunk_issues json_parse client filePath n =
     (case client n of
        None \<Rightarrow> []
      | Some msg \<Rightarrow>
          (case response_text msg of
             Inl e \<Rightarrow> []
           | Inr response \<Rightarrow> issues (parseAnalysisResponse json_parse response filePath)))"

section \<open>Merging findings (mergeIssues)\<close>

text \<open>
  The template literal \<^verbatim>\<open>`${i.file}:${i.line}:${i.message}`\<close>. It converts the line
  number to a string; that conversion of a number is the parameter \<open>toString\<close>, so that
  what is proved of the merge holds whatever string each number is written as, also when
  two numbers are written alike.
\<close>

definition issue_key :: "(int \<Rightarrow> jsstring) \<Rightarrow> Finding \<Rightarrow> jsstring" where
  "issue_key toString i = file' i @ str '':'' @ toString (line i) @ str '':'' @ message i"

fun severityOrder :: "severity \<Rightarrow> int" where
  "severityOrder Critical = 0"
| "severityOrder High = 1"
| "severityOrder Medium = 2"
| "severityOrder Low = 3"

text \<open>The comparator handed to \<open>sort\<close>.\<close>

definition compare_issues :: "Finding \<Rightarrow> Finding \<Rightarrow> int" where
  "compare_issues a b =
     (let severityDiff = severityOrder (severity a) - severityOrder (severity b)
      in if severityDiff \<noteq> 0 then severityDiff else line a - line b)"

text \<open>
  \<open>Array.prototype.sort\<close> with a comparator: the language requires a stable sort, here
  an insertion sort that puts an element before the first one it does not compare
  greater than.
\<close>

fun sort_insert :: "('a \<Rightarrow> 'a \<Rightarrow> int) \<Rightarrow> 'a \<Rightarrow> 'a list \<Rightarrow> 'a list" where
  "sort_insert cmp x [] = [x]"
| "sort_insert cmp x (y # ys) = (if cmp x y \<le> 0 then x # y # ys else y # sort_insert cmp x ys)"

definition array_sort :: "('a \<Rightarrow> 'a \<Rightarrow> int) \<Rightarrow> 'a list \<Rightarrow> 'a list" where
  "array_sort cmp xs = foldr (sort_insert cmp) xs []"

text \<open>The \<open>for\<close> loop over \<open>aiIssues\<close>, on the pair of \<open>merged\<close> and \<open>seen\<close>.\<close>

fun merge_loop ::
  "(int \<Rightarrow> jsstring) \<Rightarrow> Finding list \<Rightarrow> Finding list \<times> jsstring set
     \<Rightarrow> Finding list \<times> jsstring set" where
  "merge_loop toString [] (merged, seen) = (merged, seen)"
| "merge_loop toString (issue # rest) (merged, seen) =
     (let key = issue_key toString issue
      in if key \<notin> seen then merge_loop toString rest (merged @ [issue], insert key seen)
         else merge_loop toString rest (merged, seen))"

definition mergeIssues :: "(int \<Rightarrow> jsstring) \<Rightarrow> Finding list \<Rightarrow> Finding list \<Rightarrow> Finding list" where
  "mergeIssues toString staticIssues aiIssues =
     (let merged = staticIssues;
          seen = set (map (issue_key toString) staticIssues);
          (merged, seen) = merge_loop toString aiIssues (merged, seen)
      in array_sort compare_issues merged)"

text \<open>
  The words of the specification, to compare \<open>mergeIssues\<close> with. The de-duplication key
  is \<open>(file, line, message)\<close>. The elements of \<open>secondary\<close> that are kept are those whose
  key string occurs neither in \<open>primary\<close> nor earlier in \<open>secondary\<close>. The order of the
  output is written out from the specification, with no reference to the table of the
  comparator: critical comes before high, high before medium, medium before low, and
  within one severity the smaller line comes first.
\<close>

definition dedup_key :: "Finding \<Rightarrow> jsstring \<times> int \<times> jsstring" where
  "dedup_key i = (file' i, line i, message i)"

definition kept_secondary :: "(int \<Rightarrow> jsstring) \<Rightarrow> Finding list \<Rightarrow> Finding list \<Rightarrow> Finding list" where
  "kept_secondary toString primary secondary =
     map (\<lambda>j. secondary ! j)
       (filter (\<lambda>j. issue_key toString (secondary ! j)
                      \<notin> issue_key toString ` (set primary \<union> set (take j secondary)))
          [0 ..< length secondary])"

fun more_severe :: "severity \<Rightarrow> severity \<Rightarrow> bool" where
  "more_severe Critical High = True"
| "more_severe Critical Medium = True"
| "more_severe Critical Low = True"
| "more_severe High Medium = True"
| "more_severe High Low = True"
| "more_severe Medium Low = True"
| "more_severe s t = False"

definition in_order :: "Finding \<Rightarrow> Finding \<Rightarrow> bool" where
  "in_order a b \<longleftrightarrow>
     more_severe (severity a) (severity b) \<or> (severity a = severity b \<and> line a \<le> line b)"

text \<open>The pair the comparator orders by, for the proofs.\<close>

definition sort_rank :: "Finding \<Rightarrow> int \<times> int" where
  "sort_rank i = (severityOrder (severity i), line i)"

text \<open>
  The decimal digits of an integer. \<open>String(n)\<close> writes an integer \<open>n\<close> so when \<open>n\<close> is
  below \<open>10^21\<close> in absolute value, as all line numbers of the examples are.
\<close>

fun digits :: "nat \<Rightarrow> jsstring" where
  "digits n = (if n < 10 then [48 + n] else digits (n div 10) @ [48 + n mod 10])"

declare digits.simps [simp del]

definition decimal :: "int \<Rightarrow> jsstring" where
  "decimal n = (if n < 0 then str ''-'' @ digits (nat (- n)) else digits (nat n))"

section \<open>The fix engine (the loop over fixableIssues of applyAIFixes)\<close>

text \<open>
  The findings of the batch are those \<open>analyzeCode\<close> returned, and a proposal is what
  \<open>parseFixResponse\<close> built: their fields hold whatever the replies carried. The working
  text \<open>content\<close> is the text of the file at first and the \<open>fixedCode\<close> of a proposal
  afterwards, so it is a runtime value too. A file on disk is identified with the value
  that was written to it.
\<close>

type_synonym disk = "jsstring \<rightharpoonup> jsval"

record fix_detail =
  detail_file :: jsstring
  detail_issue :: jsval
  detail_confidence :: jsval
  detail_explanation :: jsval

record fix_state =
  files :: disk
  content :: jsval
  fixed :: nat
  failed :: nat
  details :: "fix_detail list"

text \<open>
  The loop body depends on its environment, which is a parameter here:

  \<^item> \<open>generateFix\<close>: \<open>this.aiAnalyzer.generateFix(content, issue)\<close>, called for the \<open>k\<close>-th
    finding of the batch. It sends a request to the service and hands the reply to
    \<open>parseFixResponse\<close>; for the loop it raises or returns a proposal, of which the loop
    reads \<open>confidence\<close>, \<open>fixedCode\<close> and \<open>explanation\<close>.
  \<^item> \<open>writeFile\<close>: \<open>fs.writeFile(file, data, 'utf-8')\<close>, from the files before the call to
    the files after it and the error it raised, if any.
  \<^item> \<open>toString_raises\<close>: whether converting an array or an object to a string raises a
    TypeError (an object of a reply may have a member \<open>toString\<close>, which is no function).
  \<^item> \<open>coerced_greater\<close>: \<open>v > r\<close> for a value \<open>v\<close> that is not a number; the conversion of
    \<open>v\<close> to a number may raise.

  What is raised is an \<open>Error\<close> object, which the \<open>catch\<close> block prints.
\<close>

record fix_env =
  generateFix :: "nat \<Rightarrow> jsval \<Rightarrow> ReplyIssue \<Rightarrow> js_error + ReplyFix"
  writeFile :: "nat \<Rightarrow> jsstring \<Rightarrow> jsval \<Rightarrow> disk \<Rightarrow> disk \<times> js_error option"
  toString_raises :: "jsval \<Rightarrow> bool"
  coerced_greater :: "jsval \<Rightarrow> rat \<Rightarrow> js_error + bool"

text \<open>
  A value embedded in a template literal is converted to a string. No primitive value
  raises there.
\<close>

definition template_raises :: "fix_env \<Rightarrow> jsval \<Rightarrow> bool" where
  "template_raises env v =
     (case v of
        JArray xs \<Rightarrow> toString_raises env v
      | JObject ms \<Rightarrow> toString_raises env v
      | _ \<Rightarrow> False)"

text \<open>\<open>v > r\<close>, for a number \<open>r\<close>: two numbers are compared as they are.\<close>

definition js_greater :: "fix_env \<Rightarrow> jsval \<Rightarrow> rat \<Rightarrow> js_error + bool" where
  "js_greater env v r =
     (case v of
        JNum x \<Rightarrow> Inr (r < x)
      | _ \<Rightarrow> coerced_greater env v r)"

text \<open>
  \<open>v.slice(0, 100)\<close>: a string and an array have the method and yield their first 100
  elements; on every other value the call raises a TypeError.
\<close>

definition slice_100 :: "jsval \<Rightarrow> js_error + jsval" where
  "slice_100 v =
     (case v of
        JString s \<Rightarrow> Inr (JString (take 100 s))
      | JArray xs \<Rightarrow> Inr (JArray (take 100 xs))
      | _ \<Rightarrow> Inl TypeError)"

text \<open>
  Lines 110 to 130: the \<open>try\<close> block of the loop body. It returns the state it reached
  and the error it raised, if any: what was assigned before an error stays assigned.
\<close>

definition fix_try ::
  "fix_env \<Rightarrow> jsstring \<Rightarrow> nat \<Rightarrow> ReplyIssue \<Rightarrow> fix_state \<Rightarrow> fix_state \<times> js_error option" where
  "fix_try env file k issue st =
     (if template_raises env (message issue) then (st, Some TypeError)
      else
        (case generateFix env k (content st) issue of
           Inl e \<Rightarrow> (st, Some e)
         | Inr fix \<Rightarrow>
             (case js_greater env (confidence fix) 70 of
                Inl e \<Rightarrow> (st, Some e)
              | Inr passes \<Rightarrow>
                  if passes then
                    (case writeFile env k file (fixedCode fix) (files st) of
                       (written, Some e) \<Rightarrow> (st \<lparr> files := written \<rparr>, Some e)
                     | (written, None) \<Rightarrow>
                         (let st1 = st \<lparr> files := written, content := fixedCode fix \<rparr>
                          in if template_raises env (confidence fix) then (st1, Some TypeError)
                             else
                               (case slice_100 (explanation fix) of
                                  Inl e \<Rightarrow> (st1, Some e)
                                | Inr shown \<Rightarrow>
                                    if template_raises env shown then (st1, Some TypeError)
                                    else
                                      (st1 \<lparr> fixed := fixed st1 + 1,
                                             details := details st1 @
                                               [\<lparr> detail_file = file,
                                                  detail_issue = message issue,
                                                  detail_confidence = confidence fix,
                                                  detail_explanation = explanation fix \<rparr>] \<rparr>,
                                       None))))
                  else if template_raises env (confidence fix) then (st, Some TypeError)
                  else (st \<lparr> failed := failed st + 1 \<rparr>, None))))"

text \<open>Lines 109 to 134: the loop body, the \<open>try\<close> block with its \<open>catch\<close>.\<close>

definition fix_step :: "fix_env \<Rightarrow> jsstring \<Rightarrow> nat \<Rightarrow> ReplyIssue \<Rightarrow> fix_state \<Rightarrow> fix_state" where
  "fix_step env file k issue st =
     (case fix_try env file k issue st of
        (st1, Some e) \<Rightarrow> st1 \<lparr> failed := failed st1 + 1 \<rparr>
      | (st1, None) \<Rightarrow> st1)"

fun fix_issues :: "fix_env \<Rightarrow> jsstring \<Rightarrow> nat \<Rightarrow> ReplyIssue list \<Rightarrow> fix_state \<Rightarrow> fix_state" where
  "fix_issues env file k [] st = st"
| "fix_issues env file k (issue # rest) st =
     fix_issues env file (Suc k) rest (fix_step env file k issue st)"

text \<open>
  What \<open>applyAIFixes\<close> returns, \<open>{ fixed, failed, details }\<close>: the counters and the detail
  records, not the working text.
\<close>

definition fix_outcome :: "fix_state \<Rightarrow> nat \<times> nat \<times> fix_detail list" where
  "fix_outcome st = (fixed st, failed st, details st)"

section \<open>Concrete inputs\<close>

text \<open>The findings of the merge scenario of the specification.\<close>

definition finding_m1_low :: Finding where
  "finding_m1_low =
     \<lparr> type = IssueWarning, severity = Low, category = str ''Code Quality'', message = str ''M1'',
       file' = str ''a.js'', line = 5, column = None, code = None,
       suggestedFix = None, autoFixable = False \<rparr>"

definition finding_m1_critical :: Finding where
  "finding_m1_critical =
     \<lparr> type = IssueError, severity = Critical, category = str ''Security'', message = str ''M1'',
       file' = str ''a.js'', line = 5, column = None, code = None,
       suggestedFix = None, autoFixable = False \<rparr>"

definition finding_m2_high :: Finding where
  "finding_m2_high =
     \<lparr> type = IssueError, severity = High, category = str ''Security'', message = str ''M2'',
       file' = str ''a.js'', line = 2, column = None, code = None,
       suggestedFix = None, autoFixable = False \<rparr>"

definition finding_m3_critical :: Finding where
  "finding_m3_critical =
     \<lparr> type = IssueError, severity = Critical, category = str ''Security'', message = str ''M3'',
       file' = str ''a.js'', line = 9, column = None, code = None,
       suggestedFix = None, autoFixable = False \<rparr>"

text \<open>Replies of the service.\<close>

definition reply_no_json :: jsstring where
  "reply_no_json = str ''I could not analyse this file.''"

definition reply_malformed :: jsstring where
  "reply_malformed = str ''Result: {oops}''"

definition reply_truncated_chunk :: jsstring where
  \<open>reply_truncated_chunk =
     str ''Here you go: {"issues":[{"line":3,"severity":"high","message":"m"},{"line":''\<close>

definition reply_nested_chunk :: jsstring where
  \<open>reply_nested_chunk = str ''{"issues":[{"line":1,"meta":{}''\<close>

definition reply_fix_truncated :: jsstring where
  \<open>reply_fix_truncated = str ''{"fixedCode":"x","confidence":90,"meta":{"a":1}''\<close>

definition reply_chunk :: jsstring where
  \<open>reply_chunk =
     str ''{"issues":[{"severity":"critical","message":"m1","file":"b.js"},{"line":7,"severity":"low"}]}''\<close>

definition reply_fix_empty :: jsstring where
  \<open>reply_fix_empty = str ''{"explanation":"nothing to do"}''\<close>

definition reply_more :: jsstring where
  \<open>reply_more = str ''{"issues":[{"line":1,"severity":"low","file":"b.js"}],"hasMore":true}''\<close>

definition reply_null_entry :: jsstring where
  \<open>reply_null_entry = str ''{"issues":[{"severity":"high"},null]}''\<close>

definition client_always_more :: service where
  "client_always_more n = Some [TextBlock reply_more]"

definition client_unparseable :: service where
  "client_unparseable n = Some [TextBlock reply_no_json]"

text \<open>The one finding of \<open>reply_more\<close>, as \<open>parseAnalysisResponse\<close> returns it for \<open>a.js\<close>.\<close>

definition reply_issue_b :: ReplyIssue where
  "reply_issue_b =
     \<lparr> type = IssueWarning, severity = JString (str ''low''), category = JUndefined,
       message = JUndefined, file' = str ''a.js'', line = JNum 1, column = None, code = None,
       suggestedFix = JUndefined, autoFixable = JBool False \<rparr>"

text \<open>
  Inputs of the fix engine: a finding, replies to the fix request, and the state before
  a batch.
\<close>

definition reply_issue_a :: ReplyIssue where
  "reply_issue_a =
     \<lparr> type = IssueError, severity = JString (str ''high''), category = JString (str ''Security''),
       message = JString (str ''m1''), file' = str ''a.js'', line = JNum 3, column = None,
       code = None, suggestedFix = JUndefined, autoFixable = JBool False \<rparr>"

definition reply_fix_patched :: jsstring where
  \<open>reply_fix_patched =
     str ''{"fixedCode":"patched","explanation":"escaped the input","confidence":90}''\<close>

definition reply_fix_other :: jsstring where
  \<open>reply_fix_other =
     str ''{"fixedCode":"patched otherwise","explanation":"escaped the input","confidence":90}''\<close>

definition reply_fix_unsure :: jsstring where
  \<open>reply_fix_unsure =
     str ''{"fixedCode":"rewritten","explanation":"not sure","confidence":65}''\<close>

definition reply_fix_bad_explanation :: jsstring where
  \<open>reply_fix_bad_explanation =
     str ''{"fixedCode":"patched","explanation":5,"confidence":90}''\<close>

text \<open>
  \<open>generateFix\<close> of the examples: request \<open>k\<close> is rejected or answered by a reply, which
  goes to \<open>parseFixResponse\<close> with the working text (a string, in every example).
\<close>

definition text_of :: "jsval \<Rightarrow> jsstring" where
  "text_of v = (case v of JString s \<Rightarrow> s | _ \<Rightarrow> [])"

definition service_of ::
  "(nat \<Rightarrow> jsstring option) \<Rightarrow> nat \<Rightarrow> jsval \<Rightarrow> ReplyIssue \<Rightarrow> js_error + ReplyFix" where
  "service_of replies k current issue =
     (case replies k of
        None \<Rightarrow> Inl RequestError
      | Some response \<Rightarrow> Inr (parseFixResponse JSON_parse response (text_of current)))"

text \<open>
  A disk that stores the text it is handed and refuses data that is no string (as the
  argument check of \<open>fs.writeFile\<close> refuses a number, a boolean or an object), and a disk
  that refuses every write.
\<close>

definition write_stored :: "nat \<Rightarrow> jsstring \<Rightarrow> jsval \<Rightarrow> disk \<Rightarrow> disk \<times> js_error option" where
  "write_stored k path data d =
     (case data of
        JString s \<Rightarrow> (d(path \<mapsto> data), None)
      | _ \<Rightarrow> (d, Some TypeError))"

definition write_refused :: "nat \<Rightarrow> jsstring \<Rightarrow> jsval \<Rightarrow> disk \<Rightarrow> disk \<times> js_error option" where
  "write_refused k path data d = (d, Some (Error (str ''EACCES: permission denied'')))"

text \<open>
  The environments of the examples. Every confidence in them is a number, and every
  message and explanation a string or a number, so that the two conversions are never
  consulted.
\<close>

definition env_of ::
  "(nat \<Rightarrow> jsstring option)
     \<Rightarrow> (nat \<Rightarrow> jsstring \<Rightarrow> jsval \<Rightarrow> disk \<Rightarrow> disk \<times> js_error option) \<Rightarrow> fix_env" where
  "env_of replies write =
     \<lparr> generateFix = service_of replies,
       writeFile = write,
       toString_raises = (\<lambda>v. False),
       coerced_greater = (\<lambda>v r. Inr False) \<rparr>"

text \<open>
  A service whose first request fails, whose second proposal has confidence 90 and whose
  later proposals have confidence 65.
\<close>

definition replies_scripted :: "nat \<Rightarrow> jsstring option" where
  "replies_scripted k =
     (if k = 0 then None else if k = 1 then Some reply_fix_patched else Some reply_fix_unsure)"

definition env_scripted :: fix_env where
  "env_scripted = env_of replies_scripted write_stored"

definition env_accepting :: fix_env where
  "env_accepting = env_of (\<lambda>k. Some reply_fix_patched) write_stored"

definition env_accepting_other :: fix_env where
  "env_accepting_other = env_of (\<lambda>k. Some reply_fix_other) write_stored"

definition env_unsure :: fix_env where
  "env_unsure = env_of (\<lambda>k. Some reply_fix_unsure) write_stored"

definition env_bad_explanation :: fix_env where
  "env_bad_explanation = env_of (\<lambda>k. Some reply_fix_bad_explanation) write_stored"

definition env_refused :: fix_env where
  "env_refused = env_of (\<lambda>k. Some reply_fix_patched) write_refused"

definition fix_start :: fix_state where
  "fix_start =
     \<lparr> files = [str ''a.js'' \<mapsto> JString (str ''original'')],
       content = JString (str ''original''),
       fixed = 0,
       failed = 0,
       details = [] \<rparr>"

section \<open>Evaluation of concrete inputs\<close>

lemmas json_eval =
  JSON_parse_def str_def skip_ws_def is_json_ws_def parse_literal_def parse_number_def is_digit_def
  parse_fraction_def parse_exponent_def digits_value_def scale10_def hex_value_def escape_char_def

lemmas parser_eval =
  parseAnalysisResponse_def parseAnalysisResponse_try_def parseFixResponse_def
  parseFixResponse_try_def match_json_def repair_json_def count_char_def strip_trailing_comma_def
  is_regex_space_def analysis_of_parsed_def issues_of_parsed_def convert_issue_def fix_of_parsed_def
  js_or_def analysis_failed_def fix_failed_def Let_def

lemmas merge_eval =
  mergeIssues_def array_sort_def compare_issues_def issue_key_def decimal_def digits.simps
  finding_m1_low_def finding_m1_critical_def finding_m2_high_def finding_m3_critical_def str_def

section \<open>Properties of mergeIssues\<close>

lemma compare_issues_le: "compare_issues a b \<le> 0 \<longleftrightarrow> sort_rank a \<le> sort_rank b"
  by (auto simp: compare_issues_def sort_rank_def Let_def less_eq_prod_def)

lemma sort_insert_insort: "sort_insert compare_issues x xs = insort_key sort_rank x xs"
  by (induction xs) (simp_all add: compare_issues_le)

lemma array_sort_sort_key: "array_sort compare_issues xs = sort_key sort_rank xs"
  by (induction xs) (simp_all add: array_sort_def sort_insert_insort)

lemma more_severe_order: "more_severe s t \<longleftrightarrow> severityOrder s < severityOrder t"
  by (cases s; cases t) simp_all

lemma severityOrder_inj: "severityOrder s = severityOrder t \<longleftrightarrow> s = t"
  by (cases s; cases t) simp_all

lemma in_order_rank: "in_order a b \<longleftrightarrow> sort_rank a \<le> sort_rank b"
  by (auto simp: in_order_def sort_rank_def less_eq_prod_def more_severe_order severityOrder_inj)

lemma sorted_wrt_in_order: "sorted_wrt in_order xs \<longleftrightarrow> sorted (map sort_rank xs)"
proof -
  have "in_order = (\<lambda>a b. sort_rank a \<le> sort_rank b)"
    by (intro ext) (rule in_order_rank)
  then show ?thesis
    by (simp add: sorted_map)
qed


lemma kept_secondary_Nil: "kept_secondary toString A [] = []"
  by (simp add: kept_secondary_def)

lemma kept_secondary_snoc:
  "kept_secondary toString A (bs @ [b]) =
     kept_secondary toString A bs @ (if issue_key toString b \<notin> issue_key toString ` (set A \<union> set bs) then [b] else [])"
proof -
  define P where "P xs j \<longleftrightarrow> issue_key toString (xs ! j) \<notin> issue_key toString ` (set A \<union> set (take j xs))" for xs j
  have unfold: "kept_secondary toString A xs = map (\<lambda>j. xs ! j) (filter (P xs) [0 ..< length xs])" for xs
  proof -
    have "P xs = (\<lambda>j. issue_key toString (xs ! j) \<notin> issue_key toString ` (set A \<union> set (take j xs)))"
      by (rule ext) (simp add: P_def)
    then show ?thesis
      by (simp add: kept_secondary_def)
  qed
  have f: "filter (P (bs @ [b])) [0 ..< length bs] = filter (P bs) [0 ..< length bs]"
    by (rule filter_cong) (simp_all add: P_def nth_append)
  have m: "map (\<lambda>j. (bs @ [b]) ! j) (filter (P bs) [0 ..< length bs])
             = map (\<lambda>j. bs ! j) (filter (P bs) [0 ..< length bs])"
    by (rule map_cong) (simp_all add: nth_append)
  have l: "P (bs @ [b]) (length bs) \<longleftrightarrow> issue_key toString b \<notin> issue_key toString ` (set A \<union> set bs)"
    by (simp add: P_def)
  show ?thesis
    by (simp add: unfold f m l)
qed

lemma merge_loop_kept:
  "fst (merge_loop toString rest (A @ kept_secondary toString A ds, issue_key toString ` (set A \<union> set ds)))
     = A @ kept_secondary toString A (ds @ rest)"
proof (induction rest arbitrary: ds)
  case Nil
  show ?case by simp
next
  case (Cons b rest)
  show ?case
  proof (cases "issue_key toString b \<in> issue_key toString ` (set A \<union> set ds)")
    case True
    then have s: "issue_key toString ` (set A \<union> set (ds @ [b])) = issue_key toString ` (set A \<union> set ds)"
      by auto
    have k: "kept_secondary toString A (ds @ [b]) = kept_secondary toString A ds"
      using True by (simp add: kept_secondary_snoc)
    have "fst (merge_loop toString rest (A @ kept_secondary toString A ds, issue_key toString ` (set A \<union> set ds)))
            = A @ kept_secondary toString A ((ds @ [b]) @ rest)"
      using Cons.IH [where ds = "ds @ [b]"] unfolding s k .
    then show ?thesis
      using True by simp
  next
    case False
    have s: "issue_key toString ` (set A \<union> set (ds @ [b])) = insert (issue_key toString b) (issue_key toString ` (set A \<union> set ds))"
      by auto
    have k: "kept_secondary toString A (ds @ [b]) = kept_secondary toString A ds @ [b]"
      using False by (simp add: kept_secondary_snoc)
    have "fst (merge_loop toString rest ((A @ kept_secondary toString A ds) @ [b],
                 insert (issue_key toString b) (issue_key toString ` (set A \<union> set ds))))
            = A @ kept_secondary toString A ((ds @ [b]) @ rest)"
      using Cons.IH [where ds = "ds @ [b]"] unfolding s k append_assoc .
    then show ?thesis
      using False by simp
  qed
qed

lemma merge_unsorted:
  "fst (merge_loop toString B (A, set (map (issue_key toString) A))) = A @ kept_secondary toString A B"
  using merge_loop_kept [where rest = B and A = A and ds = "[]" and toString = toString] by (simp add: kept_secondary_Nil)

lemma mergeIssues_eq: "mergeIssues toString A B = sort_key sort_rank (A @ kept_secondary toString A B)"
proof (cases "merge_loop toString B (A, set (map (issue_key toString) A))")
  case (Pair merged seen)
  with merge_unsorted [where B = B and A = A and toString = toString] have "merged = A @ kept_secondary toString A B"
    by simp
  with Pair show ?thesis
    by (simp add: mergeIssues_def array_sort_sort_key)
qed

lemma kept_secondary_self: "kept_secondary toString A A = []"
proof -
  have "j < length A \<Longrightarrow> issue_key toString (A ! j) \<in> issue_key toString ` (set A \<union> set (take j A))" for j
    by simp
  then show ?thesis
    by (simp add: kept_secondary_def filter_empty_conv)
qed

lemma dedup_key_issue_key: "dedup_key a = dedup_key b \<Longrightarrow> issue_key toString a = issue_key toString b"
  by (simp add: issue_key_def dedup_key_def)

lemma unseen_key_unseen_triple:
  "issue_key toString b \<notin> issue_key toString ` S \<Longrightarrow> dedup_key b \<notin> dedup_key ` S"
  using dedup_key_issue_key by (metis image_iff)

lemma kept_secondary_subset: "set (kept_secondary toString A bs) \<subseteq> set bs"
  by (auto simp: kept_secondary_def)

lemma distinct_kept:
  "distinct (map dedup_key A) \<Longrightarrow> distinct (map dedup_key (A @ kept_secondary toString A bs))"
proof (induction bs rule: rev_induct)
  case Nil
  then show ?case by (simp add: kept_secondary_Nil)
next
  case (snoc b bs)
  show ?case
  proof (cases "issue_key toString b \<in> issue_key toString ` (set A \<union> set bs)")
    case True
    with snoc show ?thesis by (simp add: kept_secondary_snoc)
  next
    case False
    then have "dedup_key b \<notin> dedup_key ` (set A \<union> set bs)"
      by (rule unseen_key_unseen_triple)
    with kept_secondary_subset [where A = A and bs = bs and toString = toString]
    have "dedup_key b \<notin> dedup_key ` (set A \<union> set (kept_secondary toString A bs))"
      by blast
    with snoc False show ?thesis
      by (simp add: kept_secondary_snoc image_Un)
  qed
qed

lemma distinct_map_sort_key: "distinct (map f (sort_key g xs)) \<longleftrightarrow> distinct (map f xs)"
proof -
  have "mset (map f (sort_key g xs)) = mset (map f xs)"
    by simp
  then show ?thesis
    by (rule mset_eq_imp_distinct_iff)
qed



text \<open>
  Claim C4, as amended. When no two findings of \<open>primary\<close> share a \<open>(file, line, message)\<close>
  key, no two findings of \<open>mergeIssues toString primary secondary\<close> share one.
\<close>

theorem mergeIssues_distinct_keys:
  "distinct (map dedup_key primary)
   \<Longrightarrow> distinct (map dedup_key (mergeIssues toString primary secondary))"
  by (simp only: mergeIssues_eq distinct_map_sort_key distinct_kept)

theorem mergeIssues_distinct_keys_witness:
  "distinct (map dedup_key [finding_m1_low])
   \<and> distinct (map dedup_key (mergeIssues decimal [finding_m1_low] [finding_m1_critical, finding_m2_high]))"
proof -
  have d: "distinct (map dedup_key [finding_m1_low])"
    by simp
  from d mergeIssues_distinct_keys
    [where toString = decimal and secondary = "[finding_m1_critical, finding_m2_high]", OF d]
  show ?thesis
    by (rule conjI)
qed

text \<open>
  Claim C4 as stated fails: all of \<open>primary\<close> is kept, so a key that occurs twice in
  \<open>primary\<close> occurs twice in the output.
\<close>

theorem mergeIssues_duplicate_counterexample:
  "\<not> distinct (map dedup_key (mergeIssues decimal [finding_m1_low, finding_m1_low] []))"
  by (simp add: mergeIssues_def array_sort_def compare_issues_def)

text \<open>
  Claim C2, as amended. \<open>mergeIssues toString A A\<close> is \<open>A\<close> sorted by the comparator of the
  source: it has the elements of \<open>A\<close> with their multiplicities, in the order of severity
  rank and line, and it is \<open>A\<close> itself when \<open>A\<close> is already in that order.
\<close>

theorem mergeIssues_self:
  "mergeIssues toString A A = array_sort compare_issues A
   \<and> mset (mergeIssues toString A A) = mset A
   \<and> sorted_wrt in_order (mergeIssues toString A A)
   \<and> (sorted_wrt in_order A \<longrightarrow> mergeIssues toString A A = A)"
  by (simp add: mergeIssues_eq kept_secondary_self array_sort_sort_key sorted_wrt_in_order
      sort_key_id_if_sorted)

theorem mergeIssues_self_witness:
  "sorted_wrt in_order [finding_m2_high, finding_m1_low]
   \<and> mergeIssues decimal [finding_m2_high, finding_m1_low] [finding_m2_high, finding_m1_low]
     = [finding_m2_high, finding_m1_low]"
proof -
  have s: "sorted_wrt in_order [finding_m2_high, finding_m1_low]"
    by (simp add: in_order_def finding_m1_low_def finding_m2_high_def)
  with mergeIssues_self [where toString = decimal and A = "[finding_m2_high, finding_m1_low]"]
  show ?thesis
    by blast
qed

text \<open>
  Claim C2 as stated fails: the output is sorted, so a list that is not in the order of
  the comparator is not returned as it is.
\<close>

theorem mergeIssues_self_counterexample:
  "mergeIssues decimal [finding_m1_low, finding_m2_high] [finding_m1_low, finding_m2_high]
     \<noteq> [finding_m1_low, finding_m2_high]"
  by (simp add: merge_eval)

section \<open>Properties of the response parsers\<close>

lemma match_json_Some:
  assumes "match_json response = Some jsonMatch"
  shows "jsonMatch \<noteq> [] \<and> last jsonMatch = 125"
proof -
  define t where "t = dropWhile (\<lambda>c. c \<noteq> 123) response"
  define u where "u = dropWhile (\<lambda>c. c \<noteq> 125) (rev t)"
  from assms have jsonMatch: "jsonMatch = rev u" and ne: "rev u \<noteq> []"
    by (auto simp: match_json_def t_def u_def Let_def split: if_splits)
  from ne have "u \<noteq> []" by simp
  then have "hd u = 125"
    unfolding u_def using hd_dropWhile [of "\<lambda>c. c \<noteq> 125" "rev t"] by simp
  with \<open>u \<noteq> []\<close> show ?thesis
    by (simp add: jsonMatch last_rev)
qed

lemma strip_trailing_comma_brace:
  assumes "s \<noteq> []" and "last s = 125"
  shows "strip_trailing_comma s = s"
proof -
  from assms obtain r where r: "rev s = 125 # r"
    by (metis hd_rev list.exhaust_sel rev_is_Nil_conv)
  show ?thesis
    by (simp add: strip_trailing_comma_def r is_regex_space_def)
qed

lemma repair_json_span:
  assumes "match_json response = Some jsonMatch"
  shows "repair_json jsonMatch =
           jsonMatch @ replicate (count_char 91 jsonMatch - count_char 93 jsonMatch) 93
                @ replicate (count_char 123 jsonMatch - count_char 125 jsonMatch) 125"
proof -
  from match_json_Some [OF assms] have "strip_trailing_comma jsonMatch = jsonMatch"
    by (simp add: strip_trailing_comma_brace)
  then show ?thesis
    by (simp add: repair_json_def Let_def)
qed

text \<open>
  Claim C3, as amended, for the analysis-chunk parser. When the span from the first \<open>{\<close>
  to the last \<open>}\<close> fails the strict parse, the parser appends to it the missing \<open>]\<close> and
  then the missing \<open>}\<close>, by their counts (the span ends in \<open>}\<close>, so no trailing comma is
  ever stripped), and parses the result once: its output is the normalisation of that
  parse when it succeeds, and the default result when it does not.
\<close>

theorem repair_appends_closers:
  assumes "match_json response = Some jsonMatch" and "json_parse jsonMatch = None"
  shows "repair_json jsonMatch =
           jsonMatch @ replicate (count_char 91 jsonMatch - count_char 93 jsonMatch) 93
                @ replicate (count_char 123 jsonMatch - count_char 125 jsonMatch) 125
         \<and> parseAnalysisResponse json_parse response filePath =
             (case json_parse (repair_json jsonMatch) of
                None \<Rightarrow> analysis_failed
              | Some parsed \<Rightarrow>
                  (case analysis_of_parsed filePath parsed of
                     Inl e \<Rightarrow> analysis_failed
                   | Inr result \<Rightarrow> result))"
proof (intro conjI)
  show "repair_json jsonMatch =
           jsonMatch @ replicate (count_char 91 jsonMatch - count_char 93 jsonMatch) 93
                @ replicate (count_char 123 jsonMatch - count_char 125 jsonMatch) 125"
    using assms(1) by (rule repair_json_span)
next
  show "parseAnalysisResponse json_parse response filePath =
             (case json_parse (repair_json jsonMatch) of
                None \<Rightarrow> analysis_failed
              | Some parsed \<Rightarrow>
                  (case analysis_of_parsed filePath parsed of
                     Inl e \<Rightarrow> analysis_failed
                   | Inr result \<Rightarrow> result))"
    using assms
    by (simp add: parseAnalysisResponse_def parseAnalysisResponse_try_def split: option.splits)
qed

theorem repair_appends_closers_witness:
  \<open>match_json reply_truncated_chunk
       = Some (str ''{"issues":[{"line":3,"severity":"high","message":"m"}'')
   \<and> JSON_parse (str ''{"issues":[{"line":3,"severity":"high","message":"m"}'') = None
   \<and> repair_json (str ''{"issues":[{"line":3,"severity":"high","message":"m"}'')
       = str ''{"issues":[{"line":3,"severity":"high","message":"m"}]}''
   \<and> parseAnalysisResponse JSON_parse reply_truncated_chunk (str ''a.js'') =
       \<lparr> issues = [\<lparr> type = IssueError, severity = JString (str ''high''), category = JUndefined,
           message = JString (str ''m''), file' = str ''a.js'', line = JNum 3, column = None,
           code = None, suggestedFix = JUndefined, autoFixable = JBool False \<rparr>],
         summary = JString (str ''AI analysis completed''),
         suggestions = JArray [], architecturalInsights = JArray [], hasMore = JBool False \<rparr>\<close>
proof -
  let ?m = \<open>str ''{"issues":[{"line":3,"severity":"high","message":"m"}''\<close>
  have m: "match_json reply_truncated_chunk = Some ?m"
    by (simp add: reply_truncated_chunk_def match_json_def str_def)
  have p: "JSON_parse ?m = None"
    by (simp add: json_eval)
  have r: \<open>repair_json ?m = str ''{"issues":[{"line":3,"severity":"high","message":"m"}]}''\<close>
    by (simp add: repair_json_def count_char_def strip_trailing_comma_def is_regex_space_def str_def)
  have q: \<open>JSON_parse (str ''{"issues":[{"line":3,"severity":"high","message":"m"}]}'') =
      Some (JObject [(str ''issues'', JArray [JObject [(str ''line'', JNum 3),
        (str ''severity'', JString (str ''high'')), (str ''message'', JString (str ''m''))]])])\<close>
    by (simp add: json_eval)
  have a: \<open>analysis_of_parsed (str ''a.js'') (JObject [(str ''issues'', JArray [JObject [(str ''line'', JNum 3),
        (str ''severity'', JString (str ''high'')), (str ''message'', JString (str ''m''))]])]) =
      Inr \<lparr> issues = [\<lparr> type = IssueError, severity = JString (str ''high''), category = JUndefined,
           message = JString (str ''m''), file' = str ''a.js'', line = JNum 3, column = None,
           code = None, suggestedFix = JUndefined, autoFixable = JBool False \<rparr>],
         summary = JString (str ''AI analysis completed''),
         suggestions = JArray [], architecturalInsights = JArray [], hasMore = JBool False \<rparr>\<close>
    by (simp add: analysis_of_parsed_def issues_of_parsed_def convert_issue_def js_or_def str_def)
  from repair_appends_closers [where json_parse = JSON_parse and filePath = "str ''a.js''", OF m p]
  show ?thesis
    by (simp only: m p r q a option.case sum.case simp_thms)
qed

text \<open>
  Claim C3 as stated fails. An analysis reply that lacks \<open>}]}\<close> is completed with \<open>]}}\<close>,
  which does not parse: the finding of the completed text is lost. And a fix reply that
  lacks only its last \<open>}\<close> is not repaired by \<open>parseFixResponse\<close>: the proposal is the
  default one, not the one of the completed text.
\<close>

theorem repair_counterexample:
  \<open>match_json reply_fix_truncated = Some reply_fix_truncated
   \<and> JSON_parse reply_fix_truncated = None
   \<and> count_char 91 reply_fix_truncated = count_char 93 reply_fix_truncated
   \<and> count_char 123 reply_fix_truncated = count_char 125 reply_fix_truncated + 1
   \<and> confidence (parseFixResponse JSON_parse (reply_fix_truncated @ str ''}'') (str ''orig'')) = JNum 90
   \<and> fixedCode (parseFixResponse JSON_parse (reply_fix_truncated @ str ''}'') (str ''orig'')) = JString (str ''x'')
   \<and> confidence (parseFixResponse JSON_parse reply_fix_truncated (str ''orig'')) = JNum 0
   \<and> fixedCode (parseFixResponse JSON_parse reply_fix_truncated (str ''orig'')) = JString (str ''orig'')
   \<and> match_json reply_nested_chunk = Some reply_nested_chunk
   \<and> JSON_parse reply_nested_chunk = None
   \<and> count_char 91 reply_nested_chunk = count_char 93 reply_nested_chunk + 1
   \<and> count_char 123 reply_nested_chunk = count_char 125 reply_nested_chunk + 2
   \<and> length (issues (parseAnalysisResponse JSON_parse (reply_nested_chunk @ str ''}]}'') (str ''a.js''))) = 1
   \<and> issues (parseAnalysisResponse JSON_parse reply_nested_chunk (str ''a.js'')) = []\<close>
proof (intro conjI)
  show "match_json reply_fix_truncated = Some reply_fix_truncated"
    by (simp add: reply_fix_truncated_def match_json_def str_def)
  show "JSON_parse reply_fix_truncated = None"
    by (simp add: reply_fix_truncated_def json_eval)
  show "count_char 91 reply_fix_truncated = count_char 93 reply_fix_truncated"
    by (simp add: reply_fix_truncated_def count_char_def str_def)
  show "count_char 123 reply_fix_truncated = count_char 125 reply_fix_truncated + 1"
    by (simp add: reply_fix_truncated_def count_char_def str_def)
  show \<open>confidence (parseFixResponse JSON_parse (reply_fix_truncated @ str ''}'') (str ''orig'')) = JNum 90\<close>
    by (simp add: reply_fix_truncated_def parser_eval json_eval)
  show \<open>fixedCode (parseFixResponse JSON_parse (reply_fix_truncated @ str ''}'') (str ''orig'')) = JString (str ''x'')\<close>
    by (simp add: reply_fix_truncated_def parser_eval json_eval)
  show "confidence (parseFixResponse JSON_parse reply_fix_truncated (str ''orig'')) = JNum 0"
    by (simp add: reply_fix_truncated_def parser_eval json_eval)
  show "fixedCode (parseFixResponse JSON_parse reply_fix_truncated (str ''orig'')) = JString (str ''orig'')"
    by (simp add: reply_fix_truncated_def parser_eval json_eval)
  show "match_json reply_nested_chunk = Some reply_nested_chunk"
    by (simp add: reply_nested_chunk_def match_json_def str_def)
  show "JSON_parse reply_nested_chunk = None"
    by (simp add: reply_nested_chunk_def json_eval)
  show "count_char 91 reply_nested_chunk = count_char 93 reply_nested_chunk + 1"
    by (simp add: reply_nested_chunk_def count_char_def str_def)
  show "count_char 123 reply_nested_chunk = count_char 125 reply_nested_chunk + 2"
    by (simp add: reply_nested_chunk_def count_char_def str_def)
  show \<open>length (issues (parseAnalysisResponse JSON_parse (reply_nested_chunk @ str ''}]}'') (str ''a.js''))) = 1\<close>
    by (simp add: reply_nested_chunk_def parser_eval json_eval)
  show "issues (parseAnalysisResponse JSON_parse reply_nested_chunk (str ''a.js'')) = []"
    by (simp add: reply_nested_chunk_def parser_eval json_eval)
qed

lemma get_prop_defined:
  "x \<noteq> JNull \<Longrightarrow> x \<noteq> JUndefined \<Longrightarrow> \<exists>v. get_prop x name = Inr v"
  by (cases x) (simp_all split: option.splits)

lemma get_prop_member:
  "get_prop (JObject ms) name = Inr (case map_of (rev ms) name of None \<Rightarrow> JUndefined | Some v \<Rightarrow> v)"
  by (simp split: option.splits)

lemma convert_issue_Inr:
  assumes "x \<noteq> JNull" and "x \<noteq> JUndefined"
  shows "\<exists>i. convert_issue filePath x = Inr i
           \<and> file' i = filePath
           \<and> get_prop x (str ''severity'') = Inr (severity i)
           \<and> type i = (if severity i = JString (str ''critical'') \<or> severity i = JString (str ''high'')
                        then IssueError else IssueWarning)
           \<and> (\<forall>v. get_prop x (str ''line'') = Inr v \<longrightarrow> line i = js_or v (JNum 1))"
proof -
  from assms obtain sev where 1: "get_prop x (str ''severity'') = Inr sev"
    using get_prop_defined by blast
  from assms obtain cat where 2: "get_prop x (str ''category'') = Inr cat"
    using get_prop_defined by blast
  from assms obtain msg where 3: "get_prop x (str ''message'') = Inr msg"
    using get_prop_defined by blast
  from assms obtain lnum where 4: "get_prop x (str ''line'') = Inr lnum"
    using get_prop_defined by blast
  from assms obtain sfix where 5: "get_prop x (str ''suggestedFix'') = Inr sfix"
    using get_prop_defined by blast
  from assms obtain af where 6: "get_prop x (str ''autoFixable'') = Inr af"
    using get_prop_defined by blast
  show ?thesis
    by (simp add: convert_issue_def 1 2 3 4 5 6)
qed

lemma convert_issue_file: "convert_issue filePath x = Inr i \<Longrightarrow> file' i = filePath"
  by (auto simp: convert_issue_def split: sum.splits)

lemma convert_issue_type:
  "convert_issue filePath x = Inr i \<Longrightarrow>
     type i = (if severity i = JString (str ''critical'') \<or> severity i = JString (str ''high'')
               then IssueError else IssueWarning)"
  by (auto simp: convert_issue_def split: sum.splits)

lemma map_issues_converted:
  "map_issues filePath xs = Inr iss \<Longrightarrow> \<forall>i\<in>set iss. \<exists>x. convert_issue filePath x = Inr i"
proof (induction xs arbitrary: iss)
  case Nil
  then show ?case by simp
next
  case (Cons x xs)
  from Cons.prems obtain i rest where i: "convert_issue filePath x = Inr i"
    and rest: "map_issues filePath xs = Inr rest" and iss: "iss = i # rest"
    by (auto split: sum.splits)
  from Cons.IH [OF rest] i show ?case
    unfolding iss by auto
qed

lemma map_issues_file:
  "map_issues filePath xs = Inr iss \<Longrightarrow> \<forall>i\<in>set iss. file' i = filePath"
  using map_issues_converted convert_issue_file by blast

lemma map_issues_type:
  "map_issues filePath xs = Inr iss \<Longrightarrow>
     \<forall>i\<in>set iss. type i = (if severity i = JString (str ''critical'') \<or> severity i = JString (str ''high'')
                           then IssueError else IssueWarning)"
  using map_issues_converted convert_issue_type by blast

lemma map_issues_nth:
  assumes "\<forall>x\<in>set raw. x \<noteq> JNull \<and> x \<noteq> JUndefined"
  shows "\<exists>iss. map_issues filePath raw = Inr iss \<and> length iss = length raw
            \<and> (\<forall>k<length raw. convert_issue filePath (raw ! k) = Inr (iss ! k))"
  using assms
proof (induction raw)
  case Nil
  then show ?case by simp
next
  case (Cons x raw)
  then obtain iss where iss: "map_issues filePath raw = Inr iss" "length iss = length raw"
      "\<forall>k<length raw. convert_issue filePath (raw ! k) = Inr (iss ! k)"
    by auto
  from Cons.prems obtain i where i: "convert_issue filePath x = Inr i"
    using convert_issue_Inr [of x filePath] by auto
  have "\<forall>k<length (x # raw). convert_issue filePath ((x # raw) ! k) = Inr ((i # iss) ! k)"
    using i iss(3) by (auto simp: nth_Cons split: nat.splits)
  with i iss(1,2) show ?case
    by simp
qed

lemma analysis_issues_of_parsed:
  "analysis_of_parsed filePath parsed = Inr r \<Longrightarrow> issues_of_parsed filePath parsed = Inr (issues r)"
  by (auto simp: analysis_of_parsed_def split: sum.splits)

lemma issues_of_parsed_file:
  "issues_of_parsed filePath parsed = Inr iss \<Longrightarrow> \<forall>i\<in>set iss. file' i = filePath"
  by (auto simp: issues_of_parsed_def split: sum.splits jsval.splits dest: map_issues_file)

lemma issues_of_parsed_type:
  "issues_of_parsed filePath parsed = Inr iss \<Longrightarrow>
     \<forall>i\<in>set iss. type i = (if severity i = JString (str ''critical'') \<or> severity i = JString (str ''high'')
                           then IssueError else IssueWarning)"
  by (auto simp: issues_of_parsed_def split: sum.splits jsval.splits dest: map_issues_type)

lemma parseAnalysisResponse_cases:
  "parseAnalysisResponse json_parse response filePath = analysis_failed
   \<or> (\<exists>parsed. analysis_of_parsed filePath parsed
                 = Inr (parseAnalysisResponse json_parse response filePath))"
  by (auto simp: parseAnalysisResponse_def parseAnalysisResponse_try_def Let_def
      split: sum.splits option.splits)

lemma parseAnalysisResponse_file:
  "\<forall>i\<in>set (issues (parseAnalysisResponse json_parse response filePath)). file' i = filePath"
proof -
  from parseAnalysisResponse_cases [of json_parse response filePath] show ?thesis
  proof
    assume "parseAnalysisResponse json_parse response filePath = analysis_failed"
    then show ?thesis by (simp add: analysis_failed_def)
  next
    assume "\<exists>parsed. analysis_of_parsed filePath parsed
                 = Inr (parseAnalysisResponse json_parse response filePath)"
    then show ?thesis
      using analysis_issues_of_parsed issues_of_parsed_file by blast
  qed
qed

text \<open>
  Claim C6. Neither parser raises: whatever its \<open>try\<close> block throws is caught. When the
  reply holds no \<open>{\<close> ... \<open>}\<close> span, or the span does not parse (for the analysis-chunk
  parser: not even after the repair), or the normalisation raises, the analysis-chunk
  parser returns its default result, with an empty issue list, and the single-fix parser
  returns the default proposal, whose patched text is the original code and whose
  confidence is 0.
\<close>

theorem parsers_fall_back_to_defaults:
  "(match_json response = None
      \<or> (\<exists>jsonMatch. match_json response = Some jsonMatch \<and> json_parse jsonMatch = None
            \<and> json_parse (repair_json jsonMatch) = None)
      \<or> (\<exists>e. parseAnalysisResponse_try json_parse response filePath = Inl e)
    \<longrightarrow> parseAnalysisResponse json_parse response filePath =
          \<lparr> issues = [],
            summary = JString (str ''Failed to parse AI response''),
            suggestions = JArray [],
            architecturalInsights = JArray [],
            hasMore = JUndefined \<rparr>)
   \<and> (match_json response = None
      \<or> (\<exists>jsonMatch. match_json response = Some jsonMatch \<and> json_parse jsonMatch = None)
      \<or> (\<exists>e. parseFixResponse_try json_parse response originalCode' = Inl e)
    \<longrightarrow> parseFixResponse json_parse response originalCode' =
          \<lparr> originalCode = originalCode',
            fixedCode = JString originalCode',
            explanation = JString (str ''Failed to generate fix''),
            confidence = JNum 0 \<rparr>)"
proof (intro conjI impI)
  assume "match_json response = None
      \<or> (\<exists>jsonMatch. match_json response = Some jsonMatch \<and> json_parse jsonMatch = None
            \<and> json_parse (repair_json jsonMatch) = None)
      \<or> (\<exists>e. parseAnalysisResponse_try json_parse response filePath = Inl e)"
  then have "\<exists>e. parseAnalysisResponse_try json_parse response filePath = Inl e"
    by (auto simp: parseAnalysisResponse_try_def)
  then show "parseAnalysisResponse json_parse response filePath =
          \<lparr> issues = [],
            summary = JString (str ''Failed to parse AI response''),
            suggestions = JArray [],
            architecturalInsights = JArray [],
            hasMore = JUndefined \<rparr>"
    by (auto simp: parseAnalysisResponse_def analysis_failed_def)
next
  assume "match_json response = None
      \<or> (\<exists>jsonMatch. match_json response = Some jsonMatch \<and> json_parse jsonMatch = None)
      \<or> (\<exists>e. parseFixResponse_try json_parse response originalCode' = Inl e)"
  then have "\<exists>e. parseFixResponse_try json_parse response originalCode' = Inl e"
    by (auto simp: parseFixResponse_try_def)
  then show "parseFixResponse json_parse response originalCode' =
          \<lparr> originalCode = originalCode',
            fixedCode = JString originalCode',
            explanation = JString (str ''Failed to generate fix''),
            confidence = JNum 0 \<rparr>"
    by (auto simp: parseFixResponse_def fix_failed_def)
qed

theorem parsers_fall_back_to_defaults_witness:
  "match_json reply_no_json = None
   \<and> issues (parseAnalysisResponse JSON_parse reply_no_json (str ''a.js'')) = []
   \<and> match_json reply_malformed = Some (str ''{oops}'')
   \<and> JSON_parse (str ''{oops}'') = None
   \<and> fixedCode (parseFixResponse JSON_parse reply_malformed (str ''orig'')) = JString (str ''orig'')
   \<and> confidence (parseFixResponse JSON_parse reply_malformed (str ''orig'')) = JNum 0"
proof -
  have n: "match_json reply_no_json = None"
    by (simp add: reply_no_json_def match_json_def str_def)
  have m: "match_json reply_malformed = Some (str ''{oops}'')"
    by (simp add: reply_malformed_def match_json_def str_def)
  have p: "JSON_parse (str ''{oops}'') = None"
    by (simp add: json_eval)
  note t = parsers_fall_back_to_defaults
  from n t [of reply_no_json JSON_parse "str ''a.js''" "str ''orig''"]
  have a: "issues (parseAnalysisResponse JSON_parse reply_no_json (str ''a.js'')) = []"
    by simp
  from m p t [of reply_malformed JSON_parse "str ''a.js''" "str ''orig''"]
  have b: "parseFixResponse JSON_parse reply_malformed (str ''orig'') =
          \<lparr> originalCode = str ''orig'', fixedCode = JString (str ''orig''),
            explanation = JString (str ''Failed to generate fix''), confidence = JNum 0 \<rparr>"
    by blast
  from n a m p b show ?thesis
    by simp
qed

text \<open>
  Claim C9, as amended. Let the text that \<open>parseAnalysisResponse\<close> parses (the span, or
  the repaired span when the span fails) parse to an object. When \<open>parsed.issues || []\<close> is an array
  with no \<open>null\<close> entry, the parser returns one finding per entry, with the entry's
  severity, with line 1 when the entry has no line (and when its line is falsy), and with
  \<open>hasMore = false\<close> when the reply has no such member. The kind of every finding the
  parser returns is \<open>error\<close> exactly when its severity is \<open>critical\<close> or \<open>high\<close>, and
  \<open>warning\<close> otherwise. In a fix reply whose span parses to an object, a missing
  \<open>confidence\<close> becomes 0 and a missing \<open>fixedCode\<close> becomes the original text.
\<close>

theorem normalization_defaults:
  assumes "match_json response = Some jsonMatch"
  shows "(\<forall>ms raw.
            json_parse (case json_parse jsonMatch of
                          Some v \<Rightarrow> jsonMatch
                        | None \<Rightarrow> repair_json jsonMatch) = Some (JObject ms)
            \<and> js_or (case map_of (rev ms) (str ''issues'') of None \<Rightarrow> JUndefined | Some v \<Rightarrow> v)
                 (JArray []) = JArray raw
            \<and> (\<forall>x\<in>set raw. x \<noteq> JNull \<and> x \<noteq> JUndefined) \<longrightarrow>
            length (issues (parseAnalysisResponse json_parse response filePath)) = length raw
            \<and> (\<forall>k<length raw.
                  get_prop (raw ! k) (str ''severity'')
                    = Inr (severity (issues (parseAnalysisResponse json_parse response filePath) ! k))
                  \<and> (\<forall>v. get_prop (raw ! k) (str ''line'') = Inr v \<longrightarrow>
                        line (issues (parseAnalysisResponse json_parse response filePath) ! k)
                          = (if v = JUndefined then JNum 1 else js_or v (JNum 1))))
            \<and> (map_of (rev ms) (str ''hasMore'') = None \<longrightarrow>
                  hasMore (parseAnalysisResponse json_parse response filePath) = JBool False))
         \<and> (\<forall>i\<in>set (issues (parseAnalysisResponse json_parse response filePath)).
               type i = (if severity i = JString (str ''critical'') \<or> severity i = JString (str ''high'')
                         then IssueError else IssueWarning))
         \<and> (\<forall>ms. json_parse jsonMatch = Some (JObject ms)
                 \<and> map_of (rev ms) (str ''confidence'') = None \<longrightarrow>
               confidence (parseFixResponse json_parse response originalCode') = JNum 0)
         \<and> (\<forall>ms. json_parse jsonMatch = Some (JObject ms)
                 \<and> map_of (rev ms) (str ''fixedCode'') = None \<longrightarrow>
               fixedCode (parseFixResponse json_parse response originalCode') = JString originalCode')"
proof (intro conjI allI impI)
  fix ms raw
  assume h: "json_parse (case json_parse jsonMatch of
                          Some v \<Rightarrow> jsonMatch
                        | None \<Rightarrow> repair_json jsonMatch) = Some (JObject ms)
            \<and> js_or (case map_of (rev ms) (str ''issues'') of None \<Rightarrow> JUndefined | Some v \<Rightarrow> v)
                 (JArray []) = JArray raw
            \<and> (\<forall>x\<in>set raw. x \<noteq> JNull \<and> x \<noteq> JUndefined)"
  then obtain iss where conv: "map_issues filePath raw = Inr iss" "length iss = length raw"
      "\<forall>k<length raw. convert_issue filePath (raw ! k) = Inr (iss ! k)"
    using map_issues_nth [of raw filePath] by blast
  have ip: "issues_of_parsed filePath (JObject ms) = Inr iss"
    using h conv(1) by (simp add: issues_of_parsed_def get_prop_member del: get_prop.simps)
  have res: "parseAnalysisResponse json_parse response filePath =
      \<lparr> issues = iss,
        summary = js_or (case map_of (rev ms) (str ''summary'') of None \<Rightarrow> JUndefined | Some v \<Rightarrow> v)
                    (JString (str ''AI analysis completed'')),
        suggestions = js_or (case map_of (rev ms) (str ''suggestions'') of None \<Rightarrow> JUndefined | Some v \<Rightarrow> v)
                    (JArray []),
        architecturalInsights =
          js_or (case map_of (rev ms) (str ''architecturalInsights'') of None \<Rightarrow> JUndefined | Some v \<Rightarrow> v)
            (JArray []),
        hasMore = js_or (case map_of (rev ms) (str ''hasMore'') of None \<Rightarrow> JUndefined | Some v \<Rightarrow> v)
                    (JBool False) \<rparr>"
    using assms h
    by (simp add: parseAnalysisResponse_def parseAnalysisResponse_try_def analysis_of_parsed_def
        ip get_prop_member del: get_prop.simps)
  have iss: "issues (parseAnalysisResponse json_parse response filePath) = iss"
    by (simp add: res)
  show "length (issues (parseAnalysisResponse json_parse response filePath)) = length raw"
    by (simp add: iss conv(2))
  {
    assume "map_of (rev ms) (str ''hasMore'') = None"
    then show "hasMore (parseAnalysisResponse json_parse response filePath) = JBool False"
      by (simp add: res js_or_def)
  }
  fix k
  assume k: "k < length raw"
  with h have ok: "raw ! k \<noteq> JNull" "raw ! k \<noteq> JUndefined"
    by auto
  from conv(3) k have c: "convert_issue filePath (raw ! k) = Inr (iss ! k)"
    by simp
  from convert_issue_Inr [OF ok, of filePath] c
  show "get_prop (raw ! k) (str ''severity'')
          = Inr (severity (issues (parseAnalysisResponse json_parse response filePath) ! k))"
    by (auto simp: iss)
  fix v
  assume "get_prop (raw ! k) (str ''line'') = Inr v"
  with convert_issue_Inr [OF ok, of filePath] c
  show "line (issues (parseAnalysisResponse json_parse response filePath) ! k)
          = (if v = JUndefined then JNum 1 else js_or v (JNum 1))"
    by (auto simp: iss js_or_def)
next
  show "\<forall>i\<in>set (issues (parseAnalysisResponse json_parse response filePath)).
               type i = (if severity i = JString (str ''critical'') \<or> severity i = JString (str ''high'')
                         then IssueError else IssueWarning)"
  proof -
    from parseAnalysisResponse_cases [of json_parse response filePath] show ?thesis
    proof
      assume "parseAnalysisResponse json_parse response filePath = analysis_failed"
      then show ?thesis by (simp add: analysis_failed_def)
    next
      assume "\<exists>parsed. analysis_of_parsed filePath parsed
                 = Inr (parseAnalysisResponse json_parse response filePath)"
      then obtain parsed where "issues_of_parsed filePath parsed
                 = Inr (issues (parseAnalysisResponse json_parse response filePath))"
        using analysis_issues_of_parsed by blast
      then show ?thesis
        by (rule issues_of_parsed_type)
    qed
  qed
next
  fix ms
  assume "json_parse jsonMatch = Some (JObject ms) \<and> map_of (rev ms) (str ''confidence'') = None"
  with assms show "confidence (parseFixResponse json_parse response originalCode') = JNum 0"
    by (simp add: parseFixResponse_def parseFixResponse_try_def fix_of_parsed_def js_or_def
        split: option.splits)
next
  fix ms
  assume "json_parse jsonMatch = Some (JObject ms) \<and> map_of (rev ms) (str ''fixedCode'') = None"
  with assms show "fixedCode (parseFixResponse json_parse response originalCode') = JString originalCode'"
    by (simp add: parseFixResponse_def parseFixResponse_try_def fix_of_parsed_def js_or_def
        split: option.splits)
qed

theorem normalization_defaults_witness:
  "type (issues (parseAnalysisResponse JSON_parse reply_chunk (str ''a.js'')) ! 0) = IssueError
   \<and> line (issues (parseAnalysisResponse JSON_parse reply_chunk (str ''a.js'')) ! 0) = JNum 1
   \<and> type (issues (parseAnalysisResponse JSON_parse reply_chunk (str ''a.js'')) ! 1) = IssueWarning
   \<and> line (issues (parseAnalysisResponse JSON_parse reply_chunk (str ''a.js'')) ! 1) = JNum 7
   \<and> hasMore (parseAnalysisResponse JSON_parse reply_chunk (str ''a.js'')) = JBool False
   \<and> confidence (parseFixResponse JSON_parse reply_fix_empty (str ''orig'')) = JNum 0
   \<and> fixedCode (parseFixResponse JSON_parse reply_fix_empty (str ''orig'')) = JString (str ''orig'')"
proof -
  let ?o1 = "JObject [(str ''severity'', JString (str ''critical'')), (str ''message'', JString (str ''m1'')),
                      (str ''file'', JString (str ''b.js''))]"
  let ?o2 = "JObject [(str ''line'', JNum 7), (str ''severity'', JString (str ''low''))]"
  let ?ms = "[(str ''issues'', JArray [?o1, ?o2])]"
  let ?fs = "[(str ''explanation'', JString (str ''nothing to do''))]"
  let ?r = "parseAnalysisResponse JSON_parse reply_chunk (str ''a.js'')"
  have m: "match_json reply_chunk = Some reply_chunk"
    by (simp add: reply_chunk_def match_json_def str_def)
  have p: "JSON_parse reply_chunk = Some (JObject ?ms)"
    by (simp add: reply_chunk_def json_eval)
  have fm: "match_json reply_fix_empty = Some reply_fix_empty"
    by (simp add: reply_fix_empty_def match_json_def str_def)
  have fp: "JSON_parse reply_fix_empty = Some (JObject ?fs)"
    by (simp add: reply_fix_empty_def json_eval)
  note a = normalization_defaults [where json_parse = JSON_parse and filePath = "str ''a.js''"
      and originalCode' = "str ''orig''", OF m]
  note f = normalization_defaults [where json_parse = JSON_parse and filePath = "str ''a.js''"
      and originalCode' = "str ''orig''", OF fm]
  have raw: "JSON_parse (case JSON_parse reply_chunk of
                          Some v \<Rightarrow> reply_chunk
                        | None \<Rightarrow> repair_json reply_chunk) = Some (JObject ?ms)
       \<and> js_or (case map_of (rev ?ms) (str ''issues'') of None \<Rightarrow> JUndefined | Some v \<Rightarrow> v)
                 (JArray []) = JArray [?o1, ?o2]
       \<and> (\<forall>x\<in>set [?o1, ?o2]. x \<noteq> JNull \<and> x \<noteq> JUndefined)"
    by (simp add: p js_or_def)
  note an = a [THEN conjunct1, rule_format, OF raw]
  from an have len: "length (issues ?r) = length [?o1, ?o2]"
    by (rule conjunct1)
  from an have nth: "\<forall>k<length [?o1, ?o2].
                  get_prop ([?o1, ?o2] ! k) (str ''severity'') = Inr (severity (issues ?r ! k))
                  \<and> (\<forall>v. get_prop ([?o1, ?o2] ! k) (str ''line'') = Inr v \<longrightarrow>
                        line (issues ?r ! k) = (if v = JUndefined then JNum 1 else js_or v (JNum 1)))"
    by (rule conjunct2 [THEN conjunct1])
  from an have more: "map_of (rev ?ms) (str ''hasMore'') = None \<longrightarrow> hasMore ?r = JBool False"
    by (rule conjunct2 [THEN conjunct2])
  from a have ty: "\<forall>i\<in>set (issues ?r).
               type i = (if severity i = JString (str ''critical'') \<or> severity i = JString (str ''high'')
                         then IssueError else IssueWarning)"
    by (rule conjunct2 [THEN conjunct1])
  have k0: "(0::nat) < length [?o1, ?o2]" and k1: "(1::nat) < length [?o1, ?o2]"
    by simp_all
  note n0 = nth [THEN spec, THEN mp, OF k0]
  note n1 = nth [THEN spec, THEN mp, OF k1]
  from n0 have s0: "severity (issues ?r ! 0) = JString (str ''critical'')"
    and l0: "line (issues ?r ! 0) = JNum 1"
    by (simp_all add: str_def js_or_def)
  from n1 have s1: "severity (issues ?r ! 1) = JString (str ''low'')"
    and l1: "line (issues ?r ! 1) = JNum 7"
    by (simp_all add: str_def js_or_def)
  from len have "issues ?r ! 0 \<in> set (issues ?r)" "issues ?r ! 1 \<in> set (issues ?r)"
    by simp_all
  with ty s0 s1 have t0: "type (issues ?r ! 0) = IssueError" and t1: "type (issues ?r ! 1) = IssueWarning"
    by (auto simp: str_def)
  from more have hm: "hasMore ?r = JBool False"
    by (simp add: str_def)
  have fc0: "JSON_parse reply_fix_empty = Some (JObject ?fs) \<and> map_of (rev ?fs) (str ''confidence'') = None"
    by (simp add: fp str_def)
  have fc1: "JSON_parse reply_fix_empty = Some (JObject ?fs) \<and> map_of (rev ?fs) (str ''fixedCode'') = None"
    by (simp add: fp str_def)
  have c: "confidence (parseFixResponse JSON_parse reply_fix_empty (str ''orig'')) = JNum 0"
    by (rule f [THEN conjunct2, THEN conjunct2, THEN conjunct1, rule_format, OF fc0])
  have fc: "fixedCode (parseFixResponse JSON_parse reply_fix_empty (str ''orig'')) = JString (str ''orig'')"
    by (rule f [THEN conjunct2, THEN conjunct2, THEN conjunct2, rule_format, OF fc1])
  from t0 l0 t1 l1 hm c fc show ?thesis
    by (intro conjI)
qed

text \<open>
  Claim C9 as stated fails. The span of this reply parses, and its \<open>issues\<close> hold a finding
  of severity \<open>high\<close> followed by \<open>null\<close>. Reading \<open>severity\<close> of \<open>null\<close> raises inside
  \<open>.map\<close>, and the parser returns its default result: no finding, and no \<open>hasMore\<close>.
\<close>

theorem normalization_counterexample:
  \<open>match_json reply_null_entry = Some reply_null_entry
   \<and> JSON_parse reply_null_entry =
       Some (JObject [(str ''issues'',
                       JArray [JObject [(str ''severity'', JString (str ''high''))], JNull])])
   \<and> issues (parseAnalysisResponse JSON_parse reply_null_entry (str ''a.js'')) = []
   \<and> hasMore (parseAnalysisResponse JSON_parse reply_null_entry (str ''a.js'')) = JUndefined\<close>
proof (intro conjI)
  show "match_json reply_null_entry = Some reply_null_entry"
    by (simp add: reply_null_entry_def match_json_def str_def)
  show "JSON_parse reply_null_entry =
       Some (JObject [(str ''issues'',
                       JArray [JObject [(str ''severity'', JString (str ''high''))], JNull])])"
    by (simp add: reply_null_entry_def json_eval)
  show "issues (parseAnalysisResponse JSON_parse reply_null_entry (str ''a.js'')) = []"
    by (simp add: reply_null_entry_def parser_eval json_eval)
  show "hasMore (parseAnalysisResponse JSON_parse reply_null_entry (str ''a.js'')) = JUndefined"
    by (simp add: reply_null_entry_def parser_eval json_eval)
qed

section \<open>Properties of analyzeCode\<close>

lemma response_text_Cons: "\<exists>t. response_text (b # bs) = Inr t"
  by (cases b) simp_all

lemma analyze_loop_stop:
  assumes "\<not> (truthy (cur_hasMore st) \<and> currentChunk st < 10)"
  shows "analyze_loop json_parse client filePath st = (st, None)"
  by (subst analyze_loop.simps) (simp only: assms if_False)

lemma analyze_loop_rejected:
  assumes "truthy (cur_hasMore st) \<and> currentChunk st < 10"
    and "client (currentChunk st) = None"
  shows "analyze_loop json_parse client filePath st
           = (st \<lparr> requests := requests st + 1 \<rparr>, Some RequestError)"
  by (subst analyze_loop.simps) (simp only: assms simp_thms if_True option.case)

lemma analyze_loop_no_block:
  assumes "truthy (cur_hasMore st) \<and> currentChunk st < 10"
    and "client (currentChunk st) = Some msg" and "response_text msg = Inl e"
  shows "analyze_loop json_parse client filePath st = (st \<lparr> requests := requests st + 1 \<rparr>, Some e)"
  by (subst analyze_loop.simps) (simp only: assms simp_thms if_True option.case sum.case)

lemma analyze_loop_step:
  assumes "truthy (cur_hasMore st) \<and> currentChunk st < 10"
    and "client (currentChunk st) = Some msg" and "response_text msg = Inr response"
  shows "analyze_loop json_parse client filePath st
           = analyze_loop json_parse client filePath
               (accumulate (parseAnalysisResponse json_parse response filePath)
                  (st \<lparr> requests := requests st + 1 \<rparr>))"
  by (subst analyze_loop.simps) (simp only: assms simp_thms if_True option.case sum.case)

lemma analyze_loop_requests:
  "requests st = currentChunk st \<Longrightarrow> currentChunk st \<le> 10 \<Longrightarrow>
     requests (fst (analyze_loop json_parse client filePath st)) \<le> 10
     \<and> (snd (analyze_loop json_parse client filePath st) = None \<longrightarrow>
          requests (fst (analyze_loop json_parse client filePath st))
            = currentChunk (fst (analyze_loop json_parse client filePath st)))"
proof (induction json_parse client filePath st rule: analyze_loop.induct)
  case (1 json_parse client filePath st)
  show ?case
  proof (cases "truthy (cur_hasMore st) \<and> currentChunk st < 10")
    case False
    with "1.prems" show ?thesis
      by (simp add: analyze_loop_stop)
  next
    case True
    show ?thesis
    proof (cases "client (currentChunk st)")
      case None
      with True "1.prems" show ?thesis
        by (simp add: analyze_loop_rejected)
    next
      case (Some msg)
      show ?thesis
      proof (cases "response_text msg")
        case (Inl e)
        with True Some "1.prems" show ?thesis
          by (simp add: analyze_loop_no_block)
      next
        case (Inr response)
        let ?st' = "accumulate (parseAnalysisResponse json_parse response filePath)
                      (st \<lparr> requests := requests st + 1 \<rparr>)"
        have "requests ?st' = currentChunk ?st'" "currentChunk ?st' \<le> 10"
          using True "1.prems" by (simp_all add: accumulate_def)
        with "1.IH" [OF True Some Inr] show ?thesis
          by (simp add: analyze_loop_step [where client = client, OF True Some Inr])
      qed
    qed
  qed
qed

lemma analyze_loop_returns:
  "\<forall>n<10. \<exists>b bs. client n = Some (b # bs) \<Longrightarrow>
     snd (analyze_loop json_parse client filePath st) = None"
proof (induction json_parse client filePath st rule: analyze_loop.induct)
  case (1 json_parse client filePath st)
  show ?case
  proof (cases "truthy (cur_hasMore st) \<and> currentChunk st < 10")
    case False
    then show ?thesis
      by (simp add: analyze_loop_stop)
  next
    case True
    with "1.prems" obtain b bs where msg: "client (currentChunk st) = Some (b # bs)"
      by blast
    obtain t where t: "response_text (b # bs) = Inr t"
      using response_text_Cons by blast
    from "1.IH" [OF True msg t "1.prems"] show ?thesis
      by (simp add: analyze_loop_step [where client = client, OF True msg t])
  qed
qed

lemma analyze_loop_issues:
  "snd (analyze_loop json_parse client filePath st) = None \<Longrightarrow>
     currentChunk st \<le> currentChunk (fst (analyze_loop json_parse client filePath st))
     \<and> allIssues (fst (analyze_loop json_parse client filePath st))
         = allIssues st @ concat (map (chunk_issues json_parse client filePath)
             [currentChunk st ..< currentChunk (fst (analyze_loop json_parse client filePath st))])"
proof (induction json_parse client filePath st rule: analyze_loop.induct)
  case (1 json_parse client filePath st)
  show ?case
  proof (cases "truthy (cur_hasMore st) \<and> currentChunk st < 10")
    case False
    then show ?thesis
      by (simp add: analyze_loop_stop)
  next
    case True
    show ?thesis
    proof (cases "client (currentChunk st)")
      case None
      with True "1.prems" show ?thesis
        by (simp add: analyze_loop_rejected)
    next
      case (Some msg)
      show ?thesis
      proof (cases "response_text msg")
        case (Inl e)
        with True Some "1.prems" show ?thesis
          by (simp add: analyze_loop_no_block)
      next
        case (Inr response)
        let ?st' = "accumulate (parseAnalysisResponse json_parse response filePath)
                      (st \<lparr> requests := requests st + 1 \<rparr>)"
        let ?final = "fst (analyze_loop json_parse client filePath ?st')"
        have unfold: "analyze_loop json_parse client filePath st
                        = analyze_loop json_parse client filePath ?st'"
          using True Some Inr by (rule analyze_loop_step)
        with "1.prems" have "snd (analyze_loop json_parse client filePath ?st') = None"
          by simp
        from "1.IH" [OF True Some Inr this]
        have le: "currentChunk ?st' \<le> currentChunk ?final"
          and iss: "allIssues ?final = allIssues ?st' @ concat (map (chunk_issues json_parse client filePath)
                      [currentChunk ?st' ..< currentChunk ?final])"
          by simp_all
        have c: "currentChunk ?st' = Suc (currentChunk st)"
          by (simp add: accumulate_def)
        have a: "allIssues ?st' = allIssues st @ chunk_issues json_parse client filePath (currentChunk st)"
          using Some Inr by (simp add: accumulate_def chunk_issues_def)
        from le c have lt: "currentChunk st < currentChunk ?final"
          by simp
        have "[currentChunk st ..< currentChunk ?final]
                = currentChunk st # [Suc (currentChunk st) ..< currentChunk ?final]"
          using lt by (rule upt_conv_Cons)
        with iss a c lt show ?thesis
          unfolding unfold by simp
      qed
    qed
  qed
qed

lemma analyze_loop_file:
  "\<forall>i\<in>set (allIssues st). file' i = filePath \<Longrightarrow>
     \<forall>i\<in>set (allIssues (fst (analyze_loop json_parse client filePath st))). file' i = filePath"
proof (induction json_parse client filePath st rule: analyze_loop.induct)
  case (1 json_parse client filePath st)
  show ?case
  proof (cases "truthy (cur_hasMore st) \<and> currentChunk st < 10")
    case False
    with "1.prems" show ?thesis
      by (simp add: analyze_loop_stop)
  next
    case True
    show ?thesis
    proof (cases "client (currentChunk st)")
      case None
      with True "1.prems" show ?thesis
        by (simp add: analyze_loop_rejected)
    next
      case (Some msg)
      show ?thesis
      proof (cases "response_text msg")
        case (Inl e)
        with True Some "1.prems" show ?thesis
          by (simp add: analyze_loop_no_block)
      next
        case (Inr response)
        let ?st' = "accumulate (parseAnalysisResponse json_parse response filePath)
                      (st \<lparr> requests := requests st + 1 \<rparr>)"
        have "\<forall>i\<in>set (allIssues ?st'). file' i = filePath"
          using "1.prems" parseAnalysisResponse_file [of json_parse response filePath]
          by (auto simp: accumulate_def)
        from "1.IH" [OF True Some Inr this] show ?thesis
          by (simp add: analyze_loop_step [where client = client, OF True Some Inr])
      qed
    qed
  qed
qed

lemma parse_reply_more:
  "parseAnalysisResponse JSON_parse reply_more (str ''a.js'') =
     \<lparr> issues = [reply_issue_b],
       summary = JString (str ''AI analysis completed''),
       suggestions = JArray [], architecturalInsights = JArray [], hasMore = JBool True \<rparr>"
  by (simp add: reply_more_def reply_issue_b_def parser_eval json_eval)

lemma parse_reply_no_json:
  "parseAnalysisResponse JSON_parse reply_no_json (str ''a.js'') = analysis_failed"
  by (simp add: reply_no_json_def parser_eval json_eval)

lemma requests_always_more:
  "analyzeCode_requests JSON_parse client_always_more (str ''a.js'') = 10"
  by (simp add: analyzeCode_requests_def analysis_start_def analyze_loop.simps client_always_more_def
      parse_reply_more accumulate_def js_or_def)

lemma requests_unparseable:
  "analyzeCode_requests JSON_parse client_unparseable (str ''a.js'') = 1"
  by (simp add: analyzeCode_requests_def analysis_start_def analyze_loop.simps client_unparseable_def
      parse_reply_no_json accumulate_def js_or_def analysis_failed_def)

lemma analyzeCode_always_more:
  "analyzeCode JSON_parse client_always_more (str ''a.js'') =
     Inr \<lparr> issues = replicate 10 reply_issue_b,
           summary = JString (str ''AI analysis completed''),
           suggestions = JArray [], architecturalInsights = JArray [], hasMore = JBool False \<rparr>"
  by (simp add: analyzeCode_def analysis_start_def analyze_loop.simps client_always_more_def
      parse_reply_more accumulate_def js_or_def numeral_eq_Suc)

text \<open>
  Claim C5. For every service, \<open>analyzeCode\<close> sends at most 10 requests (the loop is a
  total function). When the service answers every request with a message of at least
  one block, whatever the text, \<open>analyzeCode\<close> returns a result, also when the bound of 10
  ends the loop: its \<open>hasMore\<close> is \<open>false\<close> and its findings are those of the replies
  received, in order.
\<close>

theorem analyzeCode_bounded:
  "analyzeCode_requests json_parse client filePath \<le> 10
   \<and> ((\<forall>n<10. \<exists>b bs. client n = Some (b # bs)) \<longrightarrow>
        (\<exists>r. analyzeCode json_parse client filePath = Inr r
           \<and> hasMore r = JBool False
           \<and> issues r = concat (map (chunk_issues json_parse client filePath)
                           [0 ..< analyzeCode_requests json_parse client filePath])))"
proof (intro conjI impI)
  show "analyzeCode_requests json_parse client filePath \<le> 10"
    using analyze_loop_requests [of analysis_start json_parse client filePath]
    by (simp add: analyzeCode_requests_def analysis_start_def)
next
  assume "\<forall>n<10. \<exists>b bs. client n = Some (b # bs)"
  then have ok: "snd (analyze_loop json_parse client filePath analysis_start) = None"
    by (rule analyze_loop_returns)
  obtain st where st: "analyze_loop json_parse client filePath analysis_start = (st, None)"
    using ok by (cases "analyze_loop json_parse client filePath analysis_start") simp
  from analyze_loop_requests [of analysis_start json_parse client filePath] ok st
  have r: "requests st = currentChunk st"
    by (simp add: analysis_start_def)
  from analyze_loop_issues [OF ok] st
  have "allIssues st = concat (map (chunk_issues json_parse client filePath) [0 ..< currentChunk st])"
    by (simp add: analysis_start_def)
  with st r show "\<exists>r. analyzeCode json_parse client filePath = Inr r
           \<and> hasMore r = JBool False
           \<and> issues r = concat (map (chunk_issues json_parse client filePath)
                           [0 ..< analyzeCode_requests json_parse client filePath])"
    by (simp add: analyzeCode_def analyzeCode_requests_def)
qed

theorem analyzeCode_bounded_witness:
  "analyzeCode_requests JSON_parse client_always_more (str ''a.js'') = 10
   \<and> (\<exists>r. analyzeCode JSON_parse client_always_more (str ''a.js'') = Inr r
          \<and> hasMore r = JBool False
          \<and> issues r = replicate 10 reply_issue_b)
   \<and> analyzeCode_requests JSON_parse client_unparseable (str ''a.js'') = 1
   \<and> (\<exists>r. analyzeCode JSON_parse client_unparseable (str ''a.js'') = Inr r
          \<and> hasMore r = JBool False
          \<and> issues r = [])"
proof -
  have a: "\<forall>n<10. \<exists>b bs. client_always_more n = Some (b # bs)"
    by (simp add: client_always_more_def)
  have u: "\<forall>n<10. \<exists>b bs. client_unparseable n = Some (b # bs)"
    by (simp add: client_unparseable_def)
  have ca: "chunk_issues JSON_parse client_always_more (str ''a.js'') = (\<lambda>n. [reply_issue_b])"
    by (rule ext) (simp add: chunk_issues_def client_always_more_def parse_reply_more)
  have cu: "chunk_issues JSON_parse client_unparseable (str ''a.js'') = (\<lambda>n. [])"
    by (rule ext) (simp add: chunk_issues_def client_unparseable_def parse_reply_no_json analysis_failed_def)
  have c10: "concat (map (\<lambda>n. [reply_issue_b]) [0 ..< 10]) = replicate 10 reply_issue_b"
    by (simp add: upt_conv_Cons numeral_eq_Suc)
  from a analyzeCode_bounded [of JSON_parse client_always_more "str ''a.js''"]
  have 1: "\<exists>r. analyzeCode JSON_parse client_always_more (str ''a.js'') = Inr r
          \<and> hasMore r = JBool False \<and> issues r = replicate 10 reply_issue_b"
    by (simp only: requests_always_more ca c10 simp_thms)
  from u analyzeCode_bounded [of JSON_parse client_unparseable "str ''a.js''"]
  have 2: "\<exists>r. analyzeCode JSON_parse client_unparseable (str ''a.js'') = Inr r
          \<and> hasMore r = JBool False \<and> issues r = []"
    by (simp add: requests_unparseable cu)
  from requests_always_more 1 requests_unparseable 2 show ?thesis
    by (intro conjI)
qed

text \<open>
  Claim C10. Every finding that \<open>parseAnalysisResponse\<close> returns, and so every finding of
  a result of \<open>analyzeCode\<close>, has the \<open>filePath\<close> argument as its file.
\<close>

theorem analyzeCode_file:
  "(\<forall>i\<in>set (issues (parseAnalysisResponse json_parse response filePath)). file' i = filePath)
   \<and> (\<forall>r. analyzeCode json_parse client filePath = Inr r \<longrightarrow> (\<forall>i\<in>set (issues r). file' i = filePath))"
proof (intro conjI allI impI)
  show "\<forall>i\<in>set (issues (parseAnalysisResponse json_parse response filePath)). file' i = filePath"
    by (rule parseAnalysisResponse_file)
next
  fix r
  assume r: "analyzeCode json_parse client filePath = Inr r"
  have "\<forall>i\<in>set (allIssues (fst (analyze_loop json_parse client filePath analysis_start))).
          file' i = filePath"
    by (rule analyze_loop_file) (simp add: analysis_start_def)
  with r show "\<forall>i\<in>set (issues r). file' i = filePath"
    by (auto simp: analyzeCode_def split: prod.splits option.splits)
qed

theorem analyzeCode_file_witness:
  "issues (parseAnalysisResponse JSON_parse reply_more (str ''a.js'')) = [reply_issue_b]
   \<and> file' reply_issue_b = str ''a.js''
   \<and> (\<exists>r. analyzeCode JSON_parse client_always_more (str ''a.js'') = Inr r
          \<and> issues r = replicate 10 reply_issue_b
          \<and> list_all (\<lambda>i. file' i = str ''a.js'') (issues r))"
proof -
  note t = analyzeCode_file [of JSON_parse reply_more "str ''a.js''" client_always_more]
  from t analyzeCode_always_more
  have "\<forall>i\<in>set (replicate 10 reply_issue_b). file' i = str ''a.js''"
    by fastforce
  then have l: "list_all (\<lambda>i. file' i = str ''a.js'') (replicate 10 reply_issue_b)"
    by (simp only: list_all_iff)
  from t have "\<forall>i\<in>set (issues (parseAnalysisResponse JSON_parse reply_more (str ''a.js''))).
      file' i = str ''a.js''"
    by blast
  then have f: "file' reply_issue_b = str ''a.js''"
    by (simp add: parse_reply_more)
  from l f show ?thesis
    by (simp add: parse_reply_more analyzeCode_always_more)
qed

section \<open>Properties of the fix engine\<close>

lemma fix_try_raised:
  "fix_try env path k issue st = (st1, Some e) \<Longrightarrow>
     fixed st1 = fixed st \<and> failed st1 = failed st \<and> details st1 = details st"
  by (auto simp: fix_try_def Let_def split: if_splits sum.splits prod.splits option.splits)

lemma fix_try_completed:
  "fix_try env path k issue st = (st1, None) \<Longrightarrow>
     fixed st1 + failed st1 = fixed st + failed st + 1"
  by (auto simp: fix_try_def Let_def split: if_splits sum.splits prod.splits option.splits)

lemma fix_step_tally:
  "fixed (fix_step env path k issue st) + failed (fix_step env path k issue st)
     = fixed st + failed st + 1"
proof (cases "fix_try env path k issue st")
  case (Pair st1 outcome)
  show ?thesis
  proof (cases outcome)
    case None
    with Pair fix_try_completed [of env path k issue st st1] show ?thesis
      by (simp add: fix_step_def)
  next
    case (Some e)
    with Pair fix_try_raised [of env path k issue st st1 e] show ?thesis
      by (simp add: fix_step_def)
  qed
qed

lemma fix_issues_tally:
  "fixed (fix_issues env path k batch st) + failed (fix_issues env path k batch st)
     = fixed st + failed st + length batch"
proof (induction batch arbitrary: k st)
  case Nil
  show ?case by simp
next
  case (Cons issue rest)
  show ?case
    by (simp add: Cons.IH fix_step_tally)
qed

text \<open>
  What a batch leaves on disk, when a write either stores the data under the path or
  fails and leaves the files as they were: nothing new, or the working text under the
  path of the file.
\<close>

lemma fix_try_disk:
  assumes "\<forall>n data d. writeFile env n path data d = (d(path \<mapsto> data), None)
             \<or> (\<exists>e. writeFile env n path data d = (d, Some e))"
    and "fix_try env path k issue st = (st1, outcome)"
  shows "(files st1 = files st \<and> content st1 = content st)
         \<or> files st1 = (files st)(path \<mapsto> content st1)"
proof (cases "generateFix env k (content st) issue")
  case (Inl e)
  with assms(2) show ?thesis
    by (auto simp: fix_try_def split: if_splits)
next
  case (Inr proposal)
  from assms(1)
  have w: "writeFile env k path (fixedCode proposal) (files st)
             = ((files st)(path \<mapsto> fixedCode proposal), None)
           \<or> (\<exists>e. writeFile env k path (fixedCode proposal) (files st) = (files st, Some e))"
    by blast
  then show ?thesis
  proof
    assume "writeFile env k path (fixedCode proposal) (files st)
              = ((files st)(path \<mapsto> fixedCode proposal), None)"
    with assms(2) Inr show ?thesis
      by (auto simp: fix_try_def Let_def split: if_splits sum.splits)
  next
    assume "\<exists>e. writeFile env k path (fixedCode proposal) (files st) = (files st, Some e)"
    with assms(2) Inr show ?thesis
      by (auto simp: fix_try_def Let_def split: if_splits sum.splits)
  qed
qed

lemma fix_step_disk:
  assumes "\<forall>n data d. writeFile env n path data d = (d(path \<mapsto> data), None)
             \<or> (\<exists>e. writeFile env n path data d = (d, Some e))"
  shows "(files (fix_step env path k issue st) = files st
            \<and> content (fix_step env path k issue st) = content st)
         \<or> files (fix_step env path k issue st)
             = (files st)(path \<mapsto> content (fix_step env path k issue st))"
proof (cases "fix_try env path k issue st")
  case (Pair st1 outcome)
  from fix_try_disk [OF assms Pair] Pair show ?thesis
    by (cases outcome) (simp_all add: fix_step_def)
qed

lemma fix_issues_disk:
  assumes "\<forall>n data d. writeFile env n path data d = (d(path \<mapsto> data), None)
             \<or> (\<exists>e. writeFile env n path data d = (d, Some e))"
  shows "(files (fix_issues env path k batch st) = files st
            \<and> content (fix_issues env path k batch st) = content st)
         \<or> files (fix_issues env path k batch st)
             = (files st)(path \<mapsto> content (fix_issues env path k batch st))"
proof (induction batch arbitrary: k st)
  case Nil
  show ?case by simp
next
  case (Cons issue rest)
  define st1 where "st1 = fix_step env path k issue st"
  define st2 where "st2 = fix_issues env path (Suc k) rest st1"
  have step: "(files st1 = files st \<and> content st1 = content st)
        \<or> files st1 = (files st)(path \<mapsto> content st1)"
    unfolding st1_def by (rule fix_step_disk [OF assms])
  have rest: "(files st2 = files st1 \<and> content st2 = content st1)
        \<or> files st2 = (files st1)(path \<mapsto> content st2)"
    unfolding st2_def by (rule Cons.IH)
  have "(files st2 = files st \<and> content st2 = content st)
        \<or> files st2 = (files st)(path \<mapsto> content st2)"
  proof -
    consider
        (none) "files st1 = files st" "content st1 = content st"
               "files st2 = files st1" "content st2 = content st1"
      | (later) "files st1 = files st" "files st2 = (files st1)(path \<mapsto> content st2)"
      | (first) "files st1 = (files st)(path \<mapsto> content st1)"
               "files st2 = files st1" "content st2 = content st1"
      | (both) "files st1 = (files st)(path \<mapsto> content st1)"
               "files st2 = (files st1)(path \<mapsto> content st2)"
      using step rest by blast
    then show ?thesis
    proof cases
      case none
      then show ?thesis by simp
    next
      case later
      then show ?thesis by simp
    next
      case first
      then show ?thesis by simp
    next
      case both
      have "files st2 = ((files st)(path \<mapsto> content st1))(path \<mapsto> content st2)"
        using both by simp
      then have "files st2 = (files st)(path \<mapsto> content st2)"
        by (simp only: fun_upd_upd)
      then show ?thesis by simp
    qed
  qed
  then show ?case
    unfolding st1_def st2_def by (simp only: fix_issues.simps)
qed

text \<open>The replies of the examples, as \<open>parseFixResponse\<close> reads them.\<close>

lemma parse_reply_fix_patched:
  "parseFixResponse JSON_parse reply_fix_patched c =
     \<lparr> originalCode = c, fixedCode = JString (str ''patched''),
       explanation = JString (str ''escaped the input''), confidence = JNum 90 \<rparr>"
  by (simp add: reply_fix_patched_def parser_eval json_eval)

lemma parse_reply_fix_other:
  "parseFixResponse JSON_parse reply_fix_other c =
     \<lparr> originalCode = c, fixedCode = JString (str ''patched otherwise''),
       explanation = JString (str ''escaped the input''), confidence = JNum 90 \<rparr>"
  by (simp add: reply_fix_other_def parser_eval json_eval)

lemma parse_reply_fix_unsure:
  "parseFixResponse JSON_parse reply_fix_unsure c =
     \<lparr> originalCode = c, fixedCode = JString (str ''rewritten''),
       explanation = JString (str ''not sure''), confidence = JNum 65 \<rparr>"
  by (simp add: reply_fix_unsure_def parser_eval json_eval)

lemma parse_reply_fix_bad_explanation:
  "parseFixResponse JSON_parse reply_fix_bad_explanation c =
     \<lparr> originalCode = c, fixedCode = JString (str ''patched''),
       explanation = JNum 5, confidence = JNum 90 \<rparr>"
  by (simp add: reply_fix_bad_explanation_def parser_eval json_eval)

lemmas engine_eval =
  fix_step_def fix_try_def env_of_def service_of_def write_stored_def write_refused_def
  template_raises_def js_greater_def slice_100_def fix_start_def reply_issue_a_def text_of_def
  parse_reply_fix_patched parse_reply_fix_other parse_reply_fix_unsure
  parse_reply_fix_bad_explanation Let_def

lemma run_scripted:
  "fix_issues env_scripted (str ''a.js'') 0 [reply_issue_a, reply_issue_a, reply_issue_a] fix_start =
     \<lparr> files = [str ''a.js'' \<mapsto> JString (str ''patched'')],
       content = JString (str ''patched''),
       fixed = 1,
       failed = 2,
       details = [\<lparr> detail_file = str ''a.js'', detail_issue = JString (str ''m1''),
                    detail_confidence = JNum 90,
                    detail_explanation = JString (str ''escaped the input'') \<rparr>] \<rparr>"
  by (simp add: env_scripted_def replies_scripted_def engine_eval)

lemma run_unsure:
  "fix_issues env_unsure (str ''a.js'') 0 [reply_issue_a] fix_start = fix_start \<lparr> failed := 1 \<rparr>"
  by (simp add: env_unsure_def engine_eval)

lemma run_refused:
  "fix_step env_refused (str ''a.js'') 0 reply_issue_a fix_start = fix_start \<lparr> failed := 1 \<rparr>"
  by (simp add: env_refused_def engine_eval)

lemma stored_or_failed:
  "\<forall>n data d. writeFile (env_of replies write_stored) n path data d = (d(path \<mapsto> data), None)
     \<or> (\<exists>e. writeFile (env_of replies write_stored) n path data d = (d, Some e))"
  by (simp add: env_of_def write_stored_def split: jsval.split)

text \<open>
  Claim C7, as amended. One finding of the batch, its message printing without an error.
  When the request returns a proposal whose confidence is a number above 70, the patched
  text is written to the file; when that write succeeds and the explanation is a string,
  the patched text becomes the working text, \<open>fixed\<close> grows by one and a detail record is
  appended; when the write fails, the working text, \<open>fixed\<close> and the detail records stay
  as they were and \<open>failed\<close> grows by one. When the confidence is a number of at most 70,
  and when the request raises, nothing changes but \<open>failed\<close>, which grows by one. The
  findings are processed in the order given, each from the state the one before left,
  and every finding of the batch is counted once, whatever happened to the ones before
  it.
\<close>

theorem fix_engine_gate:
  "(\<forall>proposal c e.
       \<not> template_raises env (message issue)
       \<and> generateFix env k (content st) issue = Inr proposal
       \<and> confidence proposal = JNum c \<and> 70 < c
       \<and> explanation proposal = JString e
       \<and> snd (writeFile env k path (fixedCode proposal) (files st)) = None \<longrightarrow>
       fix_step env path k issue st =
         st \<lparr> files := fst (writeFile env k path (fixedCode proposal) (files st)),
              content := fixedCode proposal,
              fixed := fixed st + 1,
              details := details st @
                [\<lparr> detail_file = path, detail_issue = message issue,
                   detail_confidence = confidence proposal,
                   detail_explanation = explanation proposal \<rparr>] \<rparr>)
   \<and> (\<forall>proposal c err.
       generateFix env k (content st) issue = Inr proposal
       \<and> confidence proposal = JNum c \<and> 70 < c
       \<and> snd (writeFile env k path (fixedCode proposal) (files st)) = Some err \<longrightarrow>
       content (fix_step env path k issue st) = content st
       \<and> fixed (fix_step env path k issue st) = fixed st
       \<and> details (fix_step env path k issue st) = details st
       \<and> failed (fix_step env path k issue st) = failed st + 1)
   \<and> (\<forall>proposal c.
       generateFix env k (content st) issue = Inr proposal
       \<and> confidence proposal = JNum c \<and> c \<le> 70 \<longrightarrow>
       fix_step env path k issue st = st \<lparr> failed := failed st + 1 \<rparr>)
   \<and> (\<forall>err. generateFix env k (content st) issue = Inl err \<longrightarrow>
       fix_step env path k issue st = st \<lparr> failed := failed st + 1 \<rparr>)
   \<and> fix_issues env path k (issue # rest) st
       = fix_issues env path (Suc k) rest (fix_step env path k issue st)
   \<and> fixed (fix_issues env path k (issue # rest) st)
       + failed (fix_issues env path k (issue # rest) st)
       = fixed st + failed st + 1 + length rest"
proof -
  have accepted: "\<forall>proposal c e.
       \<not> template_raises env (message issue)
       \<and> generateFix env k (content st) issue = Inr proposal
       \<and> confidence proposal = JNum c \<and> 70 < c
       \<and> explanation proposal = JString e
       \<and> snd (writeFile env k path (fixedCode proposal) (files st)) = None \<longrightarrow>
       fix_step env path k issue st =
         st \<lparr> files := fst (writeFile env k path (fixedCode proposal) (files st)),
              content := fixedCode proposal,
              fixed := fixed st + 1,
              details := details st @
                [\<lparr> detail_file = path, detail_issue = message issue,
                   detail_confidence = confidence proposal,
                   detail_explanation = explanation proposal \<rparr>] \<rparr>"
  proof (intro allI impI)
    fix proposal c e
    assume h: "\<not> template_raises env (message issue)
       \<and> generateFix env k (content st) issue = Inr proposal
       \<and> confidence proposal = JNum c \<and> 70 < c
       \<and> explanation proposal = JString e
       \<and> snd (writeFile env k path (fixedCode proposal) (files st)) = None"
    obtain written where w: "writeFile env k path (fixedCode proposal) (files st) = (written, None)"
      using h by (cases "writeFile env k path (fixedCode proposal) (files st)") simp
    from h w show "fix_step env path k issue st =
         st \<lparr> files := fst (writeFile env k path (fixedCode proposal) (files st)),
              content := fixedCode proposal,
              fixed := fixed st + 1,
              details := details st @
                [\<lparr> detail_file = path, detail_issue = message issue,
                   detail_confidence = confidence proposal,
                   detail_explanation = explanation proposal \<rparr>] \<rparr>"
      by (simp add: fix_step_def fix_try_def js_greater_def slice_100_def template_raises_def Let_def)
  qed
  have refused: "\<forall>proposal c err.
       generateFix env k (content st) issue = Inr proposal
       \<and> confidence proposal = JNum c \<and> 70 < c
       \<and> snd (writeFile env k path (fixedCode proposal) (files st)) = Some err \<longrightarrow>
       content (fix_step env path k issue st) = content st
       \<and> fixed (fix_step env path k issue st) = fixed st
       \<and> details (fix_step env path k issue st) = details st
       \<and> failed (fix_step env path k issue st) = failed st + 1"
  proof (intro allI impI)
    fix proposal c err
    assume h: "generateFix env k (content st) issue = Inr proposal
       \<and> confidence proposal = JNum c \<and> 70 < c
       \<and> snd (writeFile env k path (fixedCode proposal) (files st)) = Some err"
    obtain written where w: "writeFile env k path (fixedCode proposal) (files st) = (written, Some err)"
      using h by (cases "writeFile env k path (fixedCode proposal) (files st)") simp
    from h w show "content (fix_step env path k issue st) = content st
       \<and> fixed (fix_step env path k issue st) = fixed st
       \<and> details (fix_step env path k issue st) = details st
       \<and> failed (fix_step env path k issue st) = failed st + 1"
      by (simp add: fix_step_def fix_try_def js_greater_def)
  qed
  have rejected: "\<forall>proposal c.
       generateFix env k (content st) issue = Inr proposal
       \<and> confidence proposal = JNum c \<and> c \<le> 70 \<longrightarrow>
       fix_step env path k issue st = st \<lparr> failed := failed st + 1 \<rparr>"
    by (simp add: fix_step_def fix_try_def js_greater_def template_raises_def)
  have raised: "\<forall>err. generateFix env k (content st) issue = Inl err \<longrightarrow>
       fix_step env path k issue st = st \<lparr> failed := failed st + 1 \<rparr>"
    by (simp add: fix_step_def fix_try_def)
  have continues: "fix_issues env path k (issue # rest) st
       = fix_issues env path (Suc k) rest (fix_step env path k issue st)"
    by simp
  have counted: "fixed (fix_issues env path k (issue # rest) st)
       + failed (fix_issues env path k (issue # rest) st)
       = fixed st + failed st + 1 + length rest"
    using fix_issues_tally [of env path k "issue # rest" st] by simp
  show ?thesis
    by (intro conjI) (fact accepted, fact refused, fact rejected, fact raised, fact continues,
      fact counted)
qed

theorem fix_engine_gate_witness:
  "fix_step env_scripted (str ''a.js'') 0 reply_issue_a fix_start = fix_start \<lparr> failed := 1 \<rparr>
   \<and> fix_step env_scripted (str ''a.js'') 1 reply_issue_a (fix_start \<lparr> failed := 1 \<rparr>) =
       \<lparr> files = [str ''a.js'' \<mapsto> JString (str ''patched'')],
         content = JString (str ''patched''), fixed = 1, failed = 1,
         details = [\<lparr> detail_file = str ''a.js'', detail_issue = JString (str ''m1''),
                      detail_confidence = JNum 90,
                      detail_explanation = JString (str ''escaped the input'') \<rparr>] \<rparr>
   \<and> fix_step env_unsure (str ''a.js'') 0 reply_issue_a fix_start = fix_start \<lparr> failed := 1 \<rparr>
   \<and> content (fix_step env_refused (str ''a.js'') 0 reply_issue_a fix_start) = JString (str ''original'')
   \<and> fixed (fix_step env_refused (str ''a.js'') 0 reply_issue_a fix_start) = 0
   \<and> failed (fix_step env_refused (str ''a.js'') 0 reply_issue_a fix_start) = 1
   \<and> fixed (fix_issues env_scripted (str ''a.js'') 0
               [reply_issue_a, reply_issue_a, reply_issue_a] fix_start) = 1
   \<and> failed (fix_issues env_scripted (str ''a.js'') 0
               [reply_issue_a, reply_issue_a, reply_issue_a] fix_start) = 2"
proof -
  let ?f = "str ''a.js''"
  let ?i = reply_issue_a
  let ?st1 = "fix_start \<lparr> failed := 1 \<rparr>"
  let ?p = "\<lparr> originalCode = str ''original'', fixedCode = JString (str ''patched''),
              explanation = JString (str ''escaped the input''), confidence = JNum 90 \<rparr>"
  let ?u = "\<lparr> originalCode = str ''original'', fixedCode = JString (str ''rewritten''),
              explanation = JString (str ''not sure''), confidence = JNum 65 \<rparr>"
  have r0: "generateFix env_scripted 0 (content fix_start) ?i = Inl RequestError"
    by (simp add: env_scripted_def replies_scripted_def env_of_def service_of_def)
  have r1: "\<not> template_raises env_scripted (message ?i)
      \<and> generateFix env_scripted 1 (content ?st1) ?i = Inr ?p
      \<and> confidence ?p = JNum 90 \<and> (70::rat) < 90
      \<and> explanation ?p = JString (str ''escaped the input'')
      \<and> snd (writeFile env_scripted 1 ?f (fixedCode ?p) (files ?st1)) = None"
    by (simp add: env_scripted_def replies_scripted_def engine_eval)
  have r2: "generateFix env_unsure 0 (content fix_start) ?i = Inr ?u
      \<and> confidence ?u = JNum 65 \<and> (65::rat) \<le> 70"
    by (simp add: env_unsure_def engine_eval)
  have r3: "generateFix env_refused 0 (content fix_start) ?i = Inr ?p
      \<and> confidence ?p = JNum 90 \<and> (70::rat) < 90
      \<and> snd (writeFile env_refused 0 ?f (fixedCode ?p) (files fix_start))
          = Some (Error (str ''EACCES: permission denied''))"
    by (simp add: env_refused_def engine_eval)
  note g0 = fix_engine_gate
    [where env = env_scripted and k = 0 and st = fix_start and issue = ?i and path = ?f
       and rest = "[?i, ?i]"]
  note g1 = fix_engine_gate
    [where env = env_scripted and k = 1 and st = ?st1 and issue = ?i and path = ?f
       and rest = "[]"]
  note g2 = fix_engine_gate
    [where env = env_unsure and k = 0 and st = fix_start and issue = ?i and path = ?f
       and rest = "[]"]
  note g3 = fix_engine_gate
    [where env = env_refused and k = 0 and st = fix_start and issue = ?i and path = ?f
       and rest = "[]"]
  have a: "fix_step env_scripted ?f 0 ?i fix_start = fix_start \<lparr> failed := failed fix_start + 1 \<rparr>"
    by (rule g0 [THEN conjunct2, THEN conjunct2, THEN conjunct2, THEN conjunct1,
          rule_format, OF r0])
  have b: "fix_step env_scripted ?f 1 ?i ?st1 =
         ?st1 \<lparr> files := fst (writeFile env_scripted 1 ?f (fixedCode ?p) (files ?st1)),
              content := fixedCode ?p,
              fixed := fixed ?st1 + 1,
              details := details ?st1 @
                [\<lparr> detail_file = ?f, detail_issue = message ?i,
                   detail_confidence = confidence ?p,
                   detail_explanation = explanation ?p \<rparr>] \<rparr>"
    by (rule g1 [THEN conjunct1, rule_format, OF r1])
  have c: "fix_step env_unsure ?f 0 ?i fix_start = fix_start \<lparr> failed := failed fix_start + 1 \<rparr>"
    by (rule g2 [THEN conjunct2, THEN conjunct2, THEN conjunct1, rule_format, OF r2])
  have d: "content (fix_step env_refused ?f 0 ?i fix_start) = content fix_start
       \<and> fixed (fix_step env_refused ?f 0 ?i fix_start) = fixed fix_start
       \<and> details (fix_step env_refused ?f 0 ?i fix_start) = details fix_start
       \<and> failed (fix_step env_refused ?f 0 ?i fix_start) = failed fix_start + 1"
    by (rule g3 [THEN conjunct2, THEN conjunct1, rule_format, OF r3])
  have e: "fixed (fix_issues env_scripted ?f 0 [?i, ?i, ?i] fix_start)
       + failed (fix_issues env_scripted ?f 0 [?i, ?i, ?i] fix_start)
       = fixed fix_start + failed fix_start + 1 + length [?i, ?i]"
    by (rule g0 [THEN conjunct2, THEN conjunct2, THEN conjunct2, THEN conjunct2, THEN conjunct2])
  from a have a': "fix_step env_scripted ?f 0 ?i fix_start = ?st1"
    by (simp add: fix_start_def)
  from b have b': "fix_step env_scripted ?f 1 ?i ?st1 =
       \<lparr> files = [?f \<mapsto> JString (str ''patched'')],
         content = JString (str ''patched''), fixed = 1, failed = 1,
         details = [\<lparr> detail_file = ?f, detail_issue = JString (str ''m1''),
                      detail_confidence = JNum 90,
                      detail_explanation = JString (str ''escaped the input'') \<rparr>] \<rparr>"
    by (simp add: fix_start_def reply_issue_a_def env_scripted_def env_of_def write_stored_def)
  from c have c': "fix_step env_unsure ?f 0 ?i fix_start = ?st1"
    by (simp add: fix_start_def)
  from d have d': "content (fix_step env_refused ?f 0 ?i fix_start) = JString (str ''original'')
       \<and> fixed (fix_step env_refused ?f 0 ?i fix_start) = 0
       \<and> failed (fix_step env_refused ?f 0 ?i fix_start) = 1"
    by (simp add: fix_start_def)
  have f: "fixed (fix_issues env_scripted ?f 0 [?i, ?i, ?i] fix_start) = 1
       \<and> failed (fix_issues env_scripted ?f 0 [?i, ?i, ?i] fix_start) = 2"
    unfolding run_scripted by simp
  from a' b' c' d' f show ?thesis
    by (simp only: simp_thms)
qed

text \<open>
  Claim C7 as stated fails. A proposal of confidence 90 whose explanation is the number
  5: the patched text is written and becomes the working text, then printing the
  explanation raises, and the finding is counted as failed, with no detail record. And a
  proposal of confidence 90 whose write the disk refuses: the working text stays and the
  finding is counted as failed.
\<close>

theorem fix_engine_gate_counterexample:
  "generateFix env_bad_explanation 0 (content fix_start) reply_issue_a =
     Inr \<lparr> originalCode = str ''original'', fixedCode = JString (str ''patched''),
           explanation = JNum 5, confidence = JNum 90 \<rparr>
   \<and> fix_step env_bad_explanation (str ''a.js'') 0 reply_issue_a fix_start =
       \<lparr> files = [str ''a.js'' \<mapsto> JString (str ''patched'')],
         content = JString (str ''patched''), fixed = 0, failed = 1, details = [] \<rparr>
   \<and> generateFix env_refused 0 (content fix_start) reply_issue_a =
       Inr \<lparr> originalCode = str ''original'', fixedCode = JString (str ''patched''),
             explanation = JString (str ''escaped the input''), confidence = JNum 90 \<rparr>
   \<and> fix_step env_refused (str ''a.js'') 0 reply_issue_a fix_start =
       \<lparr> files = [str ''a.js'' \<mapsto> JString (str ''original'')],
         content = JString (str ''original''), fixed = 0, failed = 1, details = [] \<rparr>"
  by (simp add: env_bad_explanation_def env_refused_def engine_eval)

text \<open>
  Claim C1, as amended. The engine writes to the disk itself. When every write either
  stores the data under the path or fails and leaves the files as they were, then after
  the batch either the files and the working text are as before the batch, or the file
  holds the final working text and every other file is as before. What is handed back
  are the two counters and the detail records: it carries neither the working text nor
  the files.
\<close>

theorem fix_engine_persists_result:
  assumes "\<forall>n data d. writeFile env n path data d = (d(path \<mapsto> data), None)
             \<or> (\<exists>e. writeFile env n path data d = (d, Some e))"
  shows "((files (fix_issues env path k batch st) = files st
             \<and> content (fix_issues env path k batch st) = content st)
          \<or> files (fix_issues env path k batch st)
              = (files st)(path \<mapsto> content (fix_issues env path k batch st)))
         \<and> (\<forall>current written.
               fix_outcome ((fix_issues env path k batch st) \<lparr> content := current, files := written \<rparr>)
                 = fix_outcome (fix_issues env path k batch st))"
  using fix_issues_disk [OF assms, of k batch st] by (simp add: fix_outcome_def)

theorem fix_engine_persists_result_witness:
  "files (fix_issues env_scripted (str ''a.js'') 0 [reply_issue_a, reply_issue_a, reply_issue_a] fix_start)
     = (files fix_start)(str ''a.js'' \<mapsto> JString (str ''patched''))
   \<and> content (fix_issues env_scripted (str ''a.js'') 0
                [reply_issue_a, reply_issue_a, reply_issue_a] fix_start)
       = JString (str ''patched'')
   \<and> files (fix_issues env_unsure (str ''a.js'') 0 [reply_issue_a] fix_start) = files fix_start
   \<and> content (fix_issues env_unsure (str ''a.js'') 0 [reply_issue_a] fix_start) = content fix_start"
proof -
  let ?run = "fix_issues env_scripted (str ''a.js'') 0 [reply_issue_a, reply_issue_a, reply_issue_a] fix_start"
  let ?none = "fix_issues env_unsure (str ''a.js'') 0 [reply_issue_a] fix_start"
  have ws: "\<forall>n data d.
      writeFile env_scripted n (str ''a.js'') data d = (d(str ''a.js'' \<mapsto> data), None)
      \<or> (\<exists>e. writeFile env_scripted n (str ''a.js'') data d = (d, Some e))"
    unfolding env_scripted_def by (rule stored_or_failed)
  have wu: "\<forall>n data d.
      writeFile env_unsure n (str ''a.js'') data d = (d(str ''a.js'' \<mapsto> data), None)
      \<or> (\<exists>e. writeFile env_unsure n (str ''a.js'') data d = (d, Some e))"
    unfolding env_unsure_def by (rule stored_or_failed)
  have c: "content ?run = JString (str ''patched'')"
    unfolding run_scripted by simp
  have cn: "content ?run \<noteq> content fix_start"
    unfolding c by (simp add: fix_start_def str_def)
  have n: "content ?none = content fix_start"
    unfolding run_unsure by simp
  have idem: "(files fix_start)(str ''a.js'' \<mapsto> content fix_start) = files fix_start"
    by (simp add: fix_start_def)
  from fix_engine_persists_result [OF ws, of 0 "[reply_issue_a, reply_issue_a, reply_issue_a]" fix_start]
  have "(files ?run = files fix_start \<and> content ?run = content fix_start)
          \<or> files ?run = (files fix_start)(str ''a.js'' \<mapsto> content ?run)"
    by (rule conjunct1)
  with cn have 1: "files ?run = (files fix_start)(str ''a.js'' \<mapsto> content ?run)"
    by blast
  from fix_engine_persists_result [OF wu, of 0 "[reply_issue_a]" fix_start]
  have "(files ?none = files fix_start \<and> content ?none = content fix_start)
          \<or> files ?none = (files fix_start)(str ''a.js'' \<mapsto> content ?none)"
    by (rule conjunct1)
  then have 2: "files ?none = files fix_start"
    unfolding n idem by blast
  from 1 c 2 n show ?thesis
    by (simp only: simp_thms)
qed

text \<open>
  Claim C1 as stated fails. An accepted proposal is written at once: in a batch of two
  findings the file on disk holds the patched text when the first finding has been
  processed and the second has not. And the text is not handed back: two batches that end
  with different working texts return the same value.
\<close>

theorem fix_engine_disk_counterexample:
  "files fix_start (str ''a.js'') = Some (JString (str ''original''))
   \<and> files (fix_issues env_accepting (str ''a.js'') 0 (take 1 [reply_issue_a, reply_issue_a]) fix_start)
       (str ''a.js'') = Some (JString (str ''patched''))
   \<and> JString (str ''patched'') \<noteq> JString (str ''original'')
   \<and> fix_outcome (fix_issues env_accepting (str ''a.js'') 0 [reply_issue_a, reply_issue_a] fix_start)
       = fix_outcome (fix_issues env_accepting_other (str ''a.js'') 0 [reply_issue_a, reply_issue_a] fix_start)
   \<and> content (fix_issues env_accepting (str ''a.js'') 0 [reply_issue_a, reply_issue_a] fix_start)
       \<noteq> content (fix_issues env_accepting_other (str ''a.js'') 0 [reply_issue_a, reply_issue_a] fix_start)"
  by (simp add: env_accepting_def env_accepting_other_def engine_eval fix_outcome_def str_def)

end
